theory Spec2Isabelle
  imports Main
begin

section \<open>Texts\<close>

text \<open>
  A Python \<open>str\<close> is a sequence of code points and \<open>len\<close> counts them. The texts of
  this development are lists of \<^typ>\<open>char\<close>, one \<^typ>\<open>char\<close> per code point, which covers
  the code points below 256; on these the classes \<open>\s\<close>, \<open>\d\<close> and \<open>\w\<close> of the \<open>re\<close> module
  and the white space of \<open>str.strip\<close> are the finite tables below.
\<close>

abbreviation nl :: char where "nl \<equiv> CHR 0x0A"
abbreviation dquote :: char where "dquote \<equiv> CHR 0x22"
abbreviation squote :: char where "squote \<equiv> CHR 0x27"
abbreviation backslash :: char where "backslash \<equiv> CHR 0x5C"

definition code :: "char \<Rightarrow> nat" where
  "code c = of_char c"

definition is_space :: "char \<Rightarrow> bool" where
  "is_space c = (let n = code c in (9 \<le> n \<and> n \<le> 13) \<or> (28 \<le> n \<and> n \<le> 32) \<or> n = 133 \<or> n = 160)"

definition is_digit :: "char \<Rightarrow> bool" where
  "is_digit c = (let n = code c in 48 \<le> n \<and> n \<le> 57)"

definition is_word :: "char \<Rightarrow> bool" where
  "is_word c = (let n = code c in
     (48 \<le> n \<and> n \<le> 57) \<or> (65 \<le> n \<and> n \<le> 90) \<or> n = 95 \<or> (97 \<le> n \<and> n \<le> 122) \<or>
     n = 170 \<or> n = 178 \<or> n = 179 \<or> n = 181 \<or> n = 185 \<or> n = 186 \<or> (188 \<le> n \<and> n \<le> 190) \<or>
     (192 \<le> n \<and> n \<le> 214) \<or> (216 \<le> n \<and> n \<le> 246) \<or> 248 \<le> n)"

text \<open>\<open>s.strip()\<close>: white space removed at both ends.\<close>

definition py_strip :: "string \<Rightarrow> string" where
  "py_strip s = rev (dropWhile is_space (rev (dropWhile is_space s)))"

text \<open>\<open>s.split('\n')\<close>: the pieces between the newlines; never the empty list.\<close>

fun split_acc :: "string \<Rightarrow> string \<Rightarrow> string list" where
  "split_acc cur [] = [rev cur]"
| "split_acc cur (c # cs) =
     (if c = nl then rev cur # split_acc [] cs else split_acc (c # cur) cs)"

definition py_split_nl :: "string \<Rightarrow> string list" where
  "py_split_nl s = split_acc [] s"

text \<open>\<open>sep.join(xs)\<close>.\<close>

fun py_join :: "string \<Rightarrow> string list \<Rightarrow> string" where
  "py_join sep [] = []"
| "py_join sep [x] = x"
| "py_join sep (x # y # ys) = x @ sep @ py_join sep (y # ys)"

section \<open>Regular expressions of the \<open>re\<close> module\<close>

text \<open>
  The patterns of this program are sequences of single characters and character classes
  under a greedy or lazy repetition, group parentheses that are never nested, and the
  anchors \<open>^\<close> and \<open>$\<close>. The matcher below is the backtracking matcher of \<open>re\<close> on such
  patterns: a greedy repetition tries the longest run first, a lazy one the shortest.
\<close>

datatype cc = Ch char | Digit | Word | Space | Dot | DotAll | Or cc cc | Not cc

fun cc_mem :: "cc \<Rightarrow> char \<Rightarrow> bool" where
  "cc_mem (Ch a) c = (c = a)"
| "cc_mem Digit c = is_digit c"
| "cc_mem Word c = is_word c"
| "cc_mem Space c = is_space c"
| "cc_mem Dot c = (c \<noteq> nl)"
| "cc_mem DotAll c = True"
| "cc_mem (Or a b) c = (cc_mem a c \<or> cc_mem b c)"
| "cc_mem (Not a) c = (\<not> cc_mem a c)"

text \<open>
  \<open>Rep c lo hi greedy\<close> is the class \<open>c\<close> repeated at least \<open>lo\<close> and at most \<open>hi\<close> times
  (\<open>None\<close>: unbounded).
\<close>

datatype item = Rep cc nat "nat option" bool | GOpen | GClose | Bol | Eol

abbreviation One :: "cc \<Rightarrow> item" where "One c \<equiv> Rep c 1 (Some 1) True"
abbreviation Plus :: "cc \<Rightarrow> item" where "Plus c \<equiv> Rep c 1 None True"
abbreviation Star :: "cc \<Rightarrow> item" where "Star c \<equiv> Rep c 0 None True"
abbreviation Opt :: "cc \<Rightarrow> item" where "Opt c \<equiv> Rep c 0 (Some 1) True"
abbreviation LazyStar :: "cc \<Rightarrow> item" where "LazyStar c \<equiv> Rep c 0 None False"
abbreviation LazyPlus :: "cc \<Rightarrow> item" where "LazyPlus c \<equiv> Rep c 1 None False"

definition lit :: "string \<Rightarrow> item list" where
  "lit s = map (\<lambda>c. One (Ch c)) s"

type_synonym groups = "(nat \<times> nat) list"

fun dec :: "nat option \<Rightarrow> nat option" where
  "dec None = None"
| "dec (Some h) = Some (h - 1)"

fun rep :: "cc \<Rightarrow> nat \<Rightarrow> nat option \<Rightarrow> bool \<Rightarrow> (nat \<Rightarrow> string \<Rightarrow> 'a option) \<Rightarrow>
    nat \<Rightarrow> string \<Rightarrow> 'a option" where
  "rep c lo hi greedy k p [] = (if lo = 0 then k p [] else None)"
| "rep c lo hi greedy k p (x # xs) =
     (if greedy then
        (case (if cc_mem c x \<and> hi \<noteq> Some 0
               then rep c (lo - 1) (dec hi) greedy k (Suc p) xs else None) of
           Some r \<Rightarrow> Some r
         | None \<Rightarrow> (if lo = 0 then k p (x # xs) else None))
      else
        (case (if lo = 0 then k p (x # xs) else None) of
           Some r \<Rightarrow> Some r
         | None \<Rightarrow> (if cc_mem c x \<and> hi \<noteq> Some 0
                     then rep c (lo - 1) (dec hi) greedy k (Suc p) xs else None)))"

fun close_group :: "nat \<Rightarrow> groups \<Rightarrow> groups" where
  "close_group p g = (case rev g of [] \<Rightarrow> [] | (a, _) # r \<Rightarrow> rev ((a, p) # r))"

text \<open>
  \<open>rx pat p s g\<close> matches \<open>pat\<close> at position \<open>p\<close>, where \<open>s\<close> is the text from \<open>p\<close> on and \<open>g\<close>
  the groups closed so far; the result is the end position, the text left and the groups.
  \<open>$\<close> holds at the end of the text and before a last newline.
\<close>

fun rx :: "item list \<Rightarrow> nat \<Rightarrow> string \<Rightarrow> groups \<Rightarrow> (nat \<times> string \<times> groups) option" where
  "rx [] p s g = Some (p, s, g)"
| "rx (Rep c lo hi greedy # rest) p s g = rep c lo hi greedy (\<lambda>p' s'. rx rest p' s' g) p s"
| "rx (GOpen # rest) p s g = rx rest p s (g @ [(p, p)])"
| "rx (GClose # rest) p s g = rx rest p s (close_group p g)"
| "rx (Bol # rest) p s g = (if p = 0 then rx rest p s g else None)"
| "rx (Eol # rest) p s g = (if s = [] \<or> s = [nl] then rx rest p s g else None)"

text \<open>\<open>re.match(pat, s)\<close>: a match that starts at position 0.\<close>

definition re_match :: "item list \<Rightarrow> string \<Rightarrow> (nat \<times> string \<times> groups) option" where
  "re_match pat s = rx pat 0 s []"

text \<open>\<open>re.search\<close>: the match at the leftmost position that has one.\<close>

fun search_from :: "item list \<Rightarrow> nat \<Rightarrow> string \<Rightarrow> (nat \<times> nat \<times> string \<times> groups) option" where
  "search_from pat p [] =
     (case rx pat p [] [] of Some (e, r, g) \<Rightarrow> Some (p, e, r, g) | None \<Rightarrow> None)"
| "search_from pat p (x # xs) =
     (case rx pat p (x # xs) [] of Some (e, r, g) \<Rightarrow> Some (p, e, r, g)
      | None \<Rightarrow> search_from pat (Suc p) xs)"

definition slice :: "string \<Rightarrow> nat \<Rightarrow> nat \<Rightarrow> string" where
  "slice s a b = take (b - a) (drop a s)"

section \<open>Slides and the slide cleaner\<close>

record slide =
  title :: string
  content :: string
  slide_num :: int

text \<open>
  The three header patterns of \<open>clean_slide_content\<close>, in the order of the source:
  \<^verbatim>\<open>\w+ \d+, \d{4} .+ \d+\<close>, \<^verbatim>\<open>^\d+$\<close> and \<^verbatim>\<open>Slide \d+\<close>.
\<close>

definition header_patterns :: "item list list" where
  "header_patterns =
     [ [Plus Word, One (Ch CHR '' ''), Plus Digit, One (Ch CHR '',''), One (Ch CHR '' ''),
        Rep Digit 4 (Some 4) True, One (Ch CHR '' ''), Plus Dot, One (Ch CHR '' ''), Plus Digit],
       [Bol, Plus Digit, Eol],
       lit ''Slide '' @ [Plus Digit] ]"

text \<open>
  The loop over the patterns. The first pattern that matches the title ends the loop
  (\<open>break\<close>), whether or not a line of the content was promoted.
\<close>

fun clean_loop :: "item list list \<Rightarrow> string \<Rightarrow> string \<Rightarrow> string \<times> string" where
  "clean_loop [] t c = (t, c)"
| "clean_loop (pat # pats) t c =
     (if re_match pat t \<noteq> None then
        (case py_split_nl c of
           [] \<Rightarrow> (t, c)
         | l # ls \<Rightarrow> if py_strip l \<noteq> [] then (py_strip l, py_strip (py_join [nl] ls)) else (t, c))
      else clean_loop pats t c)"

definition clean_slide_content :: "slide \<Rightarrow> slide" where
  "clean_slide_content s =
     (case clean_loop header_patterns (title s) (content s) of
        (t, c) \<Rightarrow> \<lparr>title = t, content = c, slide_num = slide_num s\<rparr>)"

definition is_header :: "string \<Rightarrow> bool" where
  "is_header t = list_ex (\<lambda>pat. re_match pat t \<noteq> None) header_patterns"

section \<open>Python values and \<open>json.loads\<close>\<close>

text \<open>
  The values that \<open>json.loads\<close> returns, and that the cards are made of: \<open>None\<close>,
  booleans, integers, floats, strings, lists and dicts with string keys. A string of a
  value is a list of code points, since an escape \<^verbatim>\<open>\uXXXX\<close> can denote any of them;
  \<open>ustr\<close> embeds a text. A float is kept as the numeral that denotes it. A dict is the list
  of its items in insertion order, with distinct keys when built by \<open>dict_set\<close>.

  \<open>json_loads\<close> follows the scanner of the \<open>json\<close> module (strict mode, no hooks):
  \<open>scanstring\<close> for a string after its opening quote, \<open>match_number\<close> for a number,
  \<open>scan_once\<close> for a value, and \<open>JSONDecodeError\<close> for every text that is not one JSON
  value between optional white space.

  Two limits of the interpreter make \<open>json.loads\<close> raise something else. Each list or
  object that is entered takes one level of recursion, and \<open>RecursionError\<close> is raised when
  none is left; \<open>max_depth\<close> is the number of levels left at the call. An integer of more
  than \<open>max_digits\<close> digits raises \<open>ValueError\<close> (0 for no limit; a float has none). Both
  are raised where the scanner stands, before any later syntax error is seen.
\<close>

datatype exn = JSONDecodeError | RecursionError | TypeError | KeyError | AttributeError
  | ImportError | ValueError string | OtherError string

record limits =
  max_depth :: nat
  max_digits :: nat

text \<open>
  The defaults of CPython: 4300 digits, and a recursion limit of 1000, of which the calls
  that lead to \<open>json.loads\<close> have taken some.
\<close>

definition default_limits :: limits where
  "default_limits = \<lparr>max_depth = 990, max_digits = 4300\<rparr>"

type_synonym ustring = "nat list"

definition ustr :: "string \<Rightarrow> ustring" where
  "ustr s = map code s"

datatype pyval = VNone | VBool bool | VInt int | VFloat string | VStr ustring
  | VList "pyval list" | VDict "(ustring \<times> pyval) list"

fun dict_set :: "ustring \<Rightarrow> pyval \<Rightarrow> (ustring \<times> pyval) list \<Rightarrow> (ustring \<times> pyval) list" where
  "dict_set k v [] = [(k, v)]"
| "dict_set k v ((k', v') # d) = (if k' = k then (k, v) # d else (k', v') # dict_set k v d)"

definition is_json_ws :: "char \<Rightarrow> bool" where
  "is_json_ws c = (c = CHR '' '' \<or> c = CHR 0x09 \<or> c = CHR 0x0A \<or> c = CHR 0x0D)"

definition skip_ws :: "string \<Rightarrow> string" where
  "skip_ws s = dropWhile is_json_ws s"

definition hex_val :: "char \<Rightarrow> nat option" where
  "hex_val c = (let n = code c in
     if 48 \<le> n \<and> n \<le> 57 then Some (n - 48)
     else if 97 \<le> n \<and> n \<le> 102 then Some (n - 87)
     else if 65 \<le> n \<and> n \<le> 70 then Some (n - 55)
     else None)"

definition hex4 :: "string \<Rightarrow> nat option" where
  "hex4 s = (case map hex_val (take 4 s) of
      [Some a, Some b, Some c, Some d] \<Rightarrow> Some (((a * 16 + b) * 16 + c) * 16 + d)
    | _ \<Rightarrow> None)"

definition unescape :: "char \<Rightarrow> nat option" where
  "unescape e =
     (if e = dquote then Some 34 else if e = backslash then Some 92
      else if e = CHR ''/'' then Some 47 else if e = CHR ''b'' then Some 8
      else if e = CHR ''f'' then Some 12 else if e = CHR ''n'' then Some 10
      else if e = CHR ''r'' then Some 13 else if e = CHR ''t'' then Some 9
      else None)"

fun scanstring :: "string \<Rightarrow> ustring \<Rightarrow> (ustring \<times> string) option" where
  "scanstring [] acc = None"
| "scanstring (c # cs) acc =
     (if c = dquote then Some (rev acc, cs)
      else if c = backslash then
        (case cs of
           [] \<Rightarrow> None
         | e # es \<Rightarrow>
             if e = CHR ''u'' then
               (case hex4 es of
                  None \<Rightarrow> None
                | Some u \<Rightarrow>
                    if 0xD800 \<le> u \<and> u \<le> 0xDBFF \<and> take 2 (drop 4 es) = [backslash, CHR ''u''] then
                      (case hex4 (drop 6 es) of
                         None \<Rightarrow> None
                       | Some u2 \<Rightarrow>
                           if 0xDC00 \<le> u2 \<and> u2 \<le> 0xDFFF
                           then scanstring (drop 10 es)
                                  ((0x10000 + (u - 0xD800) * 1024 + (u2 - 0xDC00)) # acc)
                           else scanstring (drop 4 es) (u # acc))
                    else scanstring (drop 4 es) (u # acc))
             else (case unescape e of None \<Rightarrow> None | Some n \<Rightarrow> scanstring es (n # acc)))
      else if code c < 32 then None
      else scanstring cs (code c # acc))"

definition digit_val :: "char \<Rightarrow> int" where
  "digit_val c = int (code c) - 48"

definition int_of_digits :: "string \<Rightarrow> int" where
  "int_of_digits ds = foldl (\<lambda>a c. 10 * a + digit_val c) 0 ds"

definition exponent :: "string \<Rightarrow> string \<times> string" where
  "exponent s =
     (case s of
        [] \<Rightarrow> ([], s)
      | e # es \<Rightarrow>
          if e = CHR ''e'' \<or> e = CHR ''E'' then
            (let (sg, t) = (case es of
                              [] \<Rightarrow> ([], es)
                            | c # cs \<Rightarrow> if c = CHR ''-'' \<or> c = CHR ''+'' then ([c], cs) else ([], es))
             in if takeWhile is_digit t \<noteq> []
                then (e # sg @ takeWhile is_digit t, dropWhile is_digit t)
                else ([], s))
          else ([], s))"

definition fraction :: "string \<Rightarrow> string \<times> string" where
  "fraction s =
     (case s of
        p # q # qs \<Rightarrow>
          if p = CHR ''.'' \<and> is_digit q
          then (p # q # takeWhile is_digit qs, dropWhile is_digit qs) else ([], s)
      | _ \<Rightarrow> ([], s))"

definition match_number :: "limits \<Rightarrow> string \<Rightarrow> exn + (pyval \<times> string)" where
  "match_number lim s =
     (let (sg, s1) = (case s of
                        [] \<Rightarrow> ([], s)
                      | c # cs \<Rightarrow> if c = CHR ''-'' then ([c], cs) else ([], s))
      in case s1 of
           [] \<Rightarrow> Inl JSONDecodeError
         | d # ds \<Rightarrow>
             if \<not> is_digit d then Inl JSONDecodeError
             else
               (let (ip, r1) = (if d = CHR ''0'' then ([d], ds)
                                else (d # takeWhile is_digit ds, dropWhile is_digit ds));
                    (fp, r2) = fraction r1;
                    (ep, r3) = exponent r2
                in if fp = [] \<and> ep = []
                   then
                     (if max_digits lim \<noteq> 0 \<and> max_digits lim < length ip
                      then Inl (ValueError ''Exceeds the limit for integer string conversion'')
                      else Inr (VInt (if sg = [] then int_of_digits ip else - int_of_digits ip), r3))
                   else Inr (VFloat (sg @ ip @ fp @ ep), r3)))"

definition scan_atom :: "limits \<Rightarrow> string \<Rightarrow> exn + (pyval \<times> string)" where
  "scan_atom lim s =
     (if take 4 s = ''null'' then Inr (VNone, drop 4 s)
      else if take 4 s = ''true'' then Inr (VBool True, drop 4 s)
      else if take 5 s = ''false'' then Inr (VBool False, drop 5 s)
      else if take 3 s = ''NaN'' then Inr (VFloat ''NaN'', drop 3 s)
      else if take 8 s = ''Infinity'' then Inr (VFloat ''Infinity'', drop 8 s)
      else if take 9 s = ''-Infinity'' then Inr (VFloat ''-Infinity'', drop 9 s)
      else match_number lim s)"

lemma scanstring_shorter_aux:
  "\<forall>acc u r. scanstring s acc = Some (u, r) \<longrightarrow> length r < length s"
proof (induction s rule: length_induct)
  case (1 s)
  have IH: "\<And>ys acc u r. length ys < length s \<Longrightarrow> scanstring ys acc = Some (u, r) \<Longrightarrow> length r < length ys"
    using 1 by blast
  show ?case
  proof (intro allI impI)
    fix acc u r
    assume a: "scanstring s acc = Some (u, r)"
    show "length r < length s"
    proof (cases s)
      case Nil
      with a show ?thesis by simp
    next
      case (Cons c cs)
      with a show ?thesis
        by (auto split: if_splits list.splits option.splits dest!: IH [rotated])
    qed
  qed
qed

lemma scanstring_shorter: "scanstring s acc = Some (u, r) \<Longrightarrow> length r < length s"
  using scanstring_shorter_aux by blast

lemma skip_ws_length: "length (skip_ws s) \<le> length s"
  by (simp add: skip_ws_def length_dropWhile_le)

lemma skip_ws_Cons: "skip_ws s = d # ds \<Longrightarrow> length ds < length s"
  using skip_ws_length [of s] by simp

text \<open>
  \<open>scan_once lim n s\<close> scans one value at the start of \<open>s\<close> with \<open>n\<close> levels of recursion
  left; \<open>parse_array\<close> and \<open>parse_object\<close> stand at an element and at a key, with the items
  read so far. The result is the value and the text after it, or what is raised.
\<close>

function scan_once :: "limits \<Rightarrow> nat \<Rightarrow> string \<Rightarrow> exn + (pyval \<times> string)"
  and parse_array :: "limits \<Rightarrow> nat \<Rightarrow> string \<Rightarrow> pyval list \<Rightarrow> exn + (pyval \<times> string)"
  and parse_object ::
    "limits \<Rightarrow> nat \<Rightarrow> string \<Rightarrow> (ustring \<times> pyval) list \<Rightarrow> exn + (pyval \<times> string)"
where
  "scan_once lim n s =
     (case s of
        [] \<Rightarrow> Inl JSONDecodeError
      | c # cs \<Rightarrow>
          if c = dquote then
            (case scanstring cs [] of
               None \<Rightarrow> Inl JSONDecodeError
             | Some (u, r) \<Rightarrow> Inr (VStr u, r))
          else if c = CHR ''{'' then
            (if n = 0 then Inl RecursionError
             else
               (case skip_ws cs of
                  [] \<Rightarrow> Inl JSONDecodeError
                | d # ds \<Rightarrow>
                    if d = CHR ''}'' then Inr (VDict [], ds)
                    else parse_object lim (n - 1) (d # ds) []))
          else if c = CHR ''['' then
            (if n = 0 then Inl RecursionError
             else
               (case skip_ws cs of
                  [] \<Rightarrow> Inl JSONDecodeError
                | d # ds \<Rightarrow>
                    if d = CHR '']'' then Inr (VList [], ds)
                    else parse_array lim (n - 1) (d # ds) []))
          else scan_atom lim s)"
| "parse_array lim n s acc =
     (case scan_once lim n s of
        Inl x \<Rightarrow> Inl x
      | Inr (v, r) \<Rightarrow>
          if length r < length s then
            (case skip_ws r of
               [] \<Rightarrow> Inl JSONDecodeError
             | d # ds \<Rightarrow>
                 if d = CHR '']'' then Inr (VList (acc @ [v]), ds)
                 else if d = CHR '','' then parse_array lim n (skip_ws ds) (acc @ [v])
                 else Inl JSONDecodeError)
          else Inl JSONDecodeError)"
| "parse_object lim n s acc =
     (case s of
        [] \<Rightarrow> Inl JSONDecodeError
      | c # cs \<Rightarrow>
          if c \<noteq> dquote then Inl JSONDecodeError
          else
            (case scanstring cs [] of
               None \<Rightarrow> Inl JSONDecodeError
             | Some (key, r) \<Rightarrow>
                 (case skip_ws r of
                    [] \<Rightarrow> Inl JSONDecodeError
                  | d # ds \<Rightarrow>
                      if d \<noteq> CHR '':'' then Inl JSONDecodeError
                      else
                        (case scan_once lim n (skip_ws ds) of
                           Inl x \<Rightarrow> Inl x
                         | Inr (v, r2) \<Rightarrow>
                             if length r2 < length (skip_ws ds) then
                               (case skip_ws r2 of
                                  [] \<Rightarrow> Inl JSONDecodeError
                                | d2 # ds2 \<Rightarrow>
                                    if d2 = CHR ''}'' then Inr (VDict (dict_set key v acc), ds2)
                                    else if d2 = CHR '','' then
                                      parse_object lim n (skip_ws ds2) (dict_set key v acc)
                                    else Inl JSONDecodeError)
                             else Inl JSONDecodeError))))"
  by pat_completeness auto
termination
proof (relation "measure (\<lambda>x. case x of
          Inl (lim, n, s) \<Rightarrow> 2 * length s
        | Inr (Inl (lim, n, s, acc)) \<Rightarrow> 2 * length s + 1
        | Inr (Inr (lim, n, s, acc)) \<Rightarrow> 2 * length s + 1)", goal_cases)
  case 1
  then show ?case by simp
next
  case (2 lim n s c cs d ds)
  then show ?case using skip_ws_Cons [of cs d ds] by simp
next
  case (3 lim n s c cs d ds)
  then show ?case using skip_ws_Cons [of cs d ds] by simp
next
  case (4 lim n s acc)
  then show ?case by simp
next
  case (5 lim n s acc x v r d ds)
  then show ?case
    using skip_ws_Cons [of r d ds] skip_ws_length [of ds] by simp
next
  case (6 lim n s acc c cs x key r d ds)
  then show ?case
    using scanstring_shorter [of cs "[]" key r] skip_ws_Cons [of r d ds] skip_ws_length [of ds]
    by simp
next
  case (7 lim n s acc c cs x key r d ds x2 v r2 d2 ds2)
  then show ?case
    using scanstring_shorter [of cs "[]" key r] skip_ws_Cons [of r d ds] skip_ws_length [of ds]
      skip_ws_Cons [of r2 d2 ds2] skip_ws_length [of ds2]
    by simp
qed

declare scan_once.simps [simp del] parse_array.simps [simp del] parse_object.simps [simp del]

definition json_loads :: "limits \<Rightarrow> string \<Rightarrow> exn + pyval" where
  "json_loads lim s =
     (case scan_once lim (max_depth lim) (skip_ws s) of
        Inl x \<Rightarrow> Inl x
      | Inr (v, r) \<Rightarrow> if skip_ws r = [] then Inr v else Inl JSONDecodeError)"

section \<open>Scanning a text for every match\<close>

text \<open>
  \<open>re.findall\<close> and \<open>re.sub\<close> go through the matches from left to right, each search
  starting where the match before it ended. Every pattern this program scans with
  consumes at least one character (\<open>scanned_patterns_consume\<close> and \<open>find_iter_unguarded\<close>
  below), so the rule of \<open>re\<close> for empty matches is never needed: the test on the lengths
  is there for the termination of the definition and never fails on these patterns.
\<close>

function find_iter :: "item list \<Rightarrow> nat \<Rightarrow> string \<Rightarrow> (nat \<times> nat \<times> groups) list" where
  "find_iter pat p s =
     (case search_from pat p s of
        None \<Rightarrow> []
      | Some (b, e, r, g) \<Rightarrow>
          (b, e, g) # (if length r < length s then find_iter pat e r else []))"
  by pat_completeness auto
termination
  by (relation "measure (\<lambda>(pat, p, s). length s)") auto

declare find_iter.simps [simp del]

text \<open>\<open>m.group(n)\<close> for \<open>n \<ge> 1\<close>, in the text \<open>s\<close> that was searched.\<close>

definition group_text :: "string \<Rightarrow> groups \<Rightarrow> nat \<Rightarrow> string" where
  "group_text s g n = (case drop (n - 1) g of [] \<Rightarrow> [] | (a, z) # _ \<Rightarrow> slice s a z)"

definition re_search :: "item list \<Rightarrow> string \<Rightarrow> (nat \<times> nat \<times> string \<times> groups) option" where
  "re_search pat s = search_from pat 0 s"

fun sub_build :: "string \<Rightarrow> ((nat \<Rightarrow> string) \<Rightarrow> string) \<Rightarrow> nat \<Rightarrow> (nat \<times> nat \<times> groups) list \<Rightarrow> string" where
  "sub_build s repl p [] = drop p s"
| "sub_build s repl p ((b, e, g) # ms) =
     slice s p b @ repl (group_text s g) @ sub_build s repl e ms"

text \<open>\<open>re.sub(pat, template, s)\<close>; the template is a function of the groups of the match.\<close>

definition re_sub :: "item list \<Rightarrow> ((nat \<Rightarrow> string) \<Rightarrow> string) \<Rightarrow> string \<Rightarrow> string" where
  "re_sub pat repl s = sub_build s repl 0 (find_iter pat 0 s)"

section \<open>Recovering cards from the response\<close>

text \<open>The character class \<^verbatim>\<open>["\']\<close>.\<close>

definition quote :: cc where
  "quote = Or (Ch dquote) (Ch squote)"

text \<open>\<^verbatim>\<open>\[\s*\{.*\}\s*\]\<close> with \<open>re.DOTALL\<close>.\<close>

definition array_pattern :: "item list" where
  "array_pattern =
     [One (Ch CHR ''[''), Star Space, One (Ch CHR ''{''), Star DotAll, One (Ch CHR ''}''),
      Star Space, One (Ch CHR '']'')]"

text \<open>\<^verbatim>\<open>(\w+):\<close>, replaced by \<^verbatim>\<open>"\1":\<close>.\<close>

definition key_pattern :: "item list" where
  "key_pattern = [GOpen, Plus Word, GClose, One (Ch CHR '':'')]"

text \<open>\<^verbatim>\<open>:\s*"([^"]*)"\<close>, replaced by \<^verbatim>\<open>: "\1"\<close>.\<close>

definition value_pattern :: "item list" where
  "value_pattern =
     [One (Ch CHR '':''), Star Space, One (Ch dquote), GOpen, Star (Not (Ch dquote)), GClose,
      One (Ch dquote)]"

definition repair_json :: "string \<Rightarrow> string" where
  "repair_json json_str =
     re_sub value_pattern (\<lambda>grp. '': '' @ [dquote] @ grp 1 @ [dquote])
       (re_sub key_pattern (\<lambda>grp. [dquote] @ grp 1 @ [dquote] @ '':'') json_str)"

text \<open>
  \<^verbatim>\<open>["\']{0,1}question["\']{0,1}\s*:\s*["\'](.*?)["\']\s*,\s*["\']{0,1}answer["\']{0,1}\s*:\s*["\'](.*?)["\']\<close>
  with \<open>re.DOTALL\<close>.
\<close>

definition qa_pattern :: "item list" where
  "qa_pattern =
     [Opt quote] @ lit ''question'' @
     [Opt quote, Star Space, One (Ch CHR '':''), Star Space, One quote,
      GOpen, LazyStar DotAll, GClose, One quote, Star Space, One (Ch CHR '',''), Star Space,
      Opt quote] @ lit ''answer'' @
     [Opt quote, Star Space, One (Ch CHR '':''), Star Space, One quote,
      GOpen, LazyStar DotAll, GClose, One quote]"

text \<open>\<^verbatim>\<open>question["\']?:[\s"\']*(.+?)[\s"\']*,\<close> and \<^verbatim>\<open>answer["\']?:[\s"\']*(.+?)[\s"\']*[},]\<close>.\<close>

definition question_pattern :: "item list" where
  "question_pattern =
     lit ''question'' @
     [Opt quote, One (Ch CHR '':''), Star (Or Space quote), GOpen, LazyPlus Dot, GClose,
      Star (Or Space quote), One (Ch CHR '','')]"

definition answer_pattern :: "item list" where
  "answer_pattern =
     lit ''answer'' @
     [Opt quote, One (Ch CHR '':''), Star (Or Space quote), GOpen, LazyPlus Dot, GClose,
      Star (Or Space quote), One (Or (Ch CHR ''}'') (Ch CHR '',''))]"

text \<open>The dict \<^verbatim>\<open>{"question": q, "answer": a}\<close>.\<close>

definition pair_card :: "string \<Rightarrow> string \<Rightarrow> pyval" where
  "pair_card q a = VDict [(ustr ''question'', VStr (ustr q)), (ustr ''answer'', VStr (ustr a))]"

text \<open>
  The second stage: the first bracketed array of objects in the text, repaired and parsed.
  \<open>Inr None\<close> is the case in which the stage gives nothing and the next one runs: no such
  array in the text, or \<open>JSONDecodeError\<close> or \<open>AttributeError\<close> caught. Any other exception
  of \<open>json.loads\<close> is not caught.
\<close>

definition extract_json_pattern :: "limits \<Rightarrow> string \<Rightarrow> exn + pyval option" where
  "extract_json_pattern lim cards_text =
     (case re_search array_pattern cards_text of
        None \<Rightarrow> Inr None
      | Some (b, e, r, g) \<Rightarrow>
          (case json_loads lim (repair_json (slice cards_text b e)) of
             Inr cards \<Rightarrow> Inr (Some cards)
           | Inl x \<Rightarrow> if x = JSONDecodeError \<or> x = AttributeError then Inr None else Inl x))"

text \<open>The third stage: every \<open>question: "...", answer: "..."\<close> in the text.\<close>

definition qa_pairs :: "string \<Rightarrow> pyval list" where
  "qa_pairs cards_text =
     map (\<lambda>(b, e, g). pair_card (py_strip (group_text cards_text g 1))
                                 (py_strip (group_text cards_text g 2)))
       (find_iter qa_pattern 0 cards_text)"

text \<open>\<^verbatim>\<open>re.sub(r'["\']', '', x).strip()\<close>.\<close>

definition strip_quotes :: "string \<Rightarrow> string" where
  "strip_quotes x = py_strip (re_sub [One quote] (\<lambda>grp. []) x)"

text \<open>
  The fourth stage: the question fragments and the answer fragments, found separately and
  paired by position up to the shorter of the two lists.
\<close>

definition q_blocks :: "string \<Rightarrow> string list" where
  "q_blocks cards_text =
     map (\<lambda>(b, e, g). group_text cards_text g 1) (find_iter question_pattern 0 cards_text)"

definition a_blocks :: "string \<Rightarrow> string list" where
  "a_blocks cards_text =
     map (\<lambda>(b, e, g). group_text cards_text g 1) (find_iter answer_pattern 0 cards_text)"

definition lenient_pairs :: "string \<Rightarrow> pyval list" where
  "lenient_pairs cards_text =
     map (\<lambda>(q, a). pair_card (strip_quotes q) (strip_quotes a))
       (zip (q_blocks cards_text) (a_blocks cards_text))"

definition manual_extraction :: "string \<Rightarrow> string \<Rightarrow> pyval" where
  "manual_extraction cards_text slide_text =
     (let cards = qa_pairs cards_text;
          cards = (if cards = [] then lenient_pairs cards_text else cards)
      in if cards \<noteq> [] then VList cards
         else VList [pair_card ''Review this slide'' slide_text])"

text \<open>
  The part of \<open>_ask_ai_for_cards\<close> after the call of the client: from the response text and
  the slide text to the cards. An exception that no \<open>except\<close> clause catches is returned
  as \<open>Inl\<close>.
\<close>

definition parse_response :: "limits \<Rightarrow> string \<Rightarrow> string \<Rightarrow> exn + pyval" where
  "parse_response lim cards_text slide_text =
     (case json_loads lim cards_text of
        Inr cards \<Rightarrow> Inr cards
      | Inl x \<Rightarrow>
          if x \<noteq> JSONDecodeError then Inl x
          else
            (case extract_json_pattern lim cards_text of
               Inl x' \<Rightarrow> Inl x'
             | Inr (Some cards) \<Rightarrow> Inr cards
             | Inr None \<Rightarrow> Inr (manual_extraction cards_text slide_text)))"

text \<open>
  The completion client is outside the program: the \<open>n\<close>-th call made with a slide text
  raises or returns a response text. The prompt around the slide text is constant and is
  left out; the log lists the slide texts of the calls made so far.
\<close>

type_synonym client = "nat \<Rightarrow> string \<Rightarrow> exn + string"

definition ask_ai_for_cards ::
    "limits \<Rightarrow> client \<Rightarrow> string list \<Rightarrow> string \<Rightarrow> (exn + pyval) \<times> string list" where
  "ask_ai_for_cards lim client log slide_text =
     (case client (length log) slide_text of
        Inl x \<Rightarrow> (Inl x, log @ [slide_text])
      | Inr response \<Rightarrow> (parse_response lim response slide_text, log @ [slide_text]))"

section \<open>Generating the cards of the slides\<close>

text \<open>\<open>str(n)\<close> for an integer.\<close>

function str_nat :: "nat \<Rightarrow> string" where
  "str_nat n = (if n < 10 then [char_of (48 + n)] else str_nat (n div 10) @ [char_of (48 + n mod 10)])"
  by pat_completeness auto
termination
  by (relation "measure id") auto

declare str_nat.simps [simp del]

definition str_int :: "int \<Rightarrow> string" where
  "str_int i = (if i < 0 then CHR ''-'' # str_nat (nat (- i)) else str_nat (nat i))"

record gen_state =
  all_cards :: "pyval list"
  requests :: "string list"

definition max_retries :: nat where
  "max_retries = 3"

definition has_meaningful_content :: "slide \<Rightarrow> bool" where
  "has_meaningful_content cleaned_slide =
     (length (title cleaned_slide) > 3 \<or> length (content cleaned_slide) > 10)"

definition full_text :: "slide \<Rightarrow> string" where
  "full_text cleaned_slide =
     ''Title: '' @ title cleaned_slide @ [nl, nl] @ ''Content: '' @ content cleaned_slide"

definition slide_label :: "slide \<Rightarrow> string" where
  "slide_label cleaned_slide = ''Slide '' @ str_int (slide_num cleaned_slide)"

text \<open>
  \<open>for card in cards\<close>: a list gives its elements, a dict its keys, a string its
  characters; the other values are not iterable.
\<close>

fun iterate :: "pyval \<Rightarrow> exn + pyval list" where
  "iterate (VList xs) = Inr xs"
| "iterate (VDict d) = Inr (map (\<lambda>(k, v). VStr k) d)"
| "iterate (VStr s) = Inr (map (\<lambda>c. VStr [c]) s)"
| "iterate v = Inl TypeError"

text \<open>\<open>card[k] = v\<close> with a string key: only a dict takes it.\<close>

fun set_item :: "pyval \<Rightarrow> string \<Rightarrow> pyval \<Rightarrow> exn + pyval" where
  "set_item (VDict d) k v = Inr (VDict (dict_set (ustr k) v d))"
| "set_item c k v = Inl TypeError"

fun stamp_cards :: "string \<Rightarrow> string \<Rightarrow> pyval list \<Rightarrow> exn + pyval list" where
  "stamp_cards label ctx [] = Inr []"
| "stamp_cards label ctx (c # cards) =
     (case set_item c ''slide'' (VStr (ustr label)) of
        Inl x \<Rightarrow> Inl x
      | Inr c1 \<Rightarrow>
          (case set_item c1 ''context'' (VStr (ustr ctx)) of
             Inl x \<Rightarrow> Inl x
           | Inr c2 \<Rightarrow>
               (case stamp_cards label ctx cards of
                  Inl x \<Rightarrow> Inl x
                | Inr cs \<Rightarrow> Inr (c2 # cs))))"

text \<open>
  One attempt, the body of the \<open>try\<close>: the call, the stamping of every card, and the cards
  that \<open>all_cards.extend(cards)\<close> then appends.
\<close>

definition attempt ::
    "limits \<Rightarrow> client \<Rightarrow> slide \<Rightarrow> string list \<Rightarrow> (exn + pyval list) \<times> string list" where
  "attempt lim client cleaned_slide log =
     (case ask_ai_for_cards lim client log (full_text cleaned_slide) of
        (Inl x, log') \<Rightarrow> (Inl x, log')
      | (Inr cards, log') \<Rightarrow>
          (case iterate cards of
             Inl x \<Rightarrow> (Inl x, log')
           | Inr items \<Rightarrow> (stamp_cards (slide_label cleaned_slide) (title cleaned_slide) items, log')))"

text \<open>
  The \<open>while retry_count < max_retries and not success\<close> loop; every exception of an
  attempt is caught (\<open>except Exception\<close>). The result is \<open>success\<close> and the state.
\<close>

function retry_loop ::
    "limits \<Rightarrow> client \<Rightarrow> slide \<Rightarrow> nat \<Rightarrow> gen_state \<Rightarrow> bool \<times> gen_state" where
  "retry_loop lim client cleaned_slide retry_count st =
     (if retry_count < max_retries then
        (case attempt lim client cleaned_slide (requests st) of
           (Inr cards, log') \<Rightarrow> (True, \<lparr>all_cards = all_cards st @ cards, requests = log'\<rparr>)
         | (Inl x, log') \<Rightarrow>
             retry_loop lim client cleaned_slide (retry_count + 1) (st\<lparr>requests := log'\<rparr>))
      else (False, st))"
  by pat_completeness auto
termination
  by (relation "measure (\<lambda>(lim, client, cleaned_slide, retry_count, st). max_retries - retry_count)") auto

declare retry_loop.simps [simp del]

definition fallback_card :: "slide \<Rightarrow> pyval" where
  "fallback_card cleaned_slide =
     VDict [(ustr ''question'', VStr (ustr (''Explain the concept of: '' @ title cleaned_slide))),
            (ustr ''answer'', VStr (ustr (if content cleaned_slide \<noteq> [] then content cleaned_slide
                                          else ''Review the slide content.''))),
            (ustr ''slide'', VStr (ustr (slide_label cleaned_slide))),
            (ustr ''context'', VStr (ustr ''Auto-generated (DeepSeek API failed)''))]"

text \<open>The body of the loop over the slides; \<open>continue\<close> leaves the state as it is.\<close>

definition process_slide :: "limits \<Rightarrow> client \<Rightarrow> slide \<Rightarrow> gen_state \<Rightarrow> gen_state" where
  "process_slide lim client slide st =
     (let cleaned_slide = clean_slide_content slide in
      if \<not> has_meaningful_content cleaned_slide then st
      else
        (case retry_loop lim client cleaned_slide 0 st of
           (success, st') \<Rightarrow>
             if \<not> success then
               (if title cleaned_slide \<noteq> []
                then st'\<lparr>all_cards := all_cards st' @ [fallback_card cleaned_slide]\<rparr>
                else st')
             else st'))"

fun generate_loop :: "limits \<Rightarrow> client \<Rightarrow> slide list \<Rightarrow> gen_state \<Rightarrow> gen_state" where
  "generate_loop lim client [] st = st"
| "generate_loop lim client (slide # slides) st =
     generate_loop lim client slides (process_slide lim client slide st)"

text \<open>
  The function returns \<open>all_cards\<close>; the state returned here holds the log of the calls
  beside it.
\<close>

definition generate_flashcards_with_deepseek ::
    "limits \<Rightarrow> client \<Rightarrow> slide list \<Rightarrow> gen_state" where
  "generate_flashcards_with_deepseek lim client slides_content =
     generate_loop lim client slides_content \<lparr>all_cards = [], requests = []\<rparr>"

section \<open>Building the deck\<close>

record anki_model =
  model_id :: nat
  model_name :: string
  field_names :: "string list"
  templates :: "(string \<times> string \<times> string) list"

record anki_note =
  note_model :: anki_model
  note_fields :: "pyval list"

record deck =
  deck_id :: nat
  name :: string
  deck_notes :: "anki_note list"

text \<open>The model that \<open>__init__\<close> builds; the identifier is drawn at random.\<close>

definition make_model :: "nat \<Rightarrow> anki_model" where
  "make_model mid =
     \<lparr>model_id = mid, model_name = ''AI Presentation Card'',
      field_names = [''Question'', ''Answer'', ''Slide'', ''Context''],
      templates = [(''Card'', ''{{Question}}'',
        ''{{FrontSide}}<hr id='' @ [dquote] @ ''answer'' @ [dquote] @
        ''>{{Answer}}<br><br><i>Slide: {{Slide}}</i>'')]\<rparr>"

text \<open>\<open>c[k]\<close> with a string key: a dict without the key raises \<open>KeyError\<close>, and no other value
  can be indexed by a string.\<close>

fun get_item :: "pyval \<Rightarrow> string \<Rightarrow> exn + pyval" where
  "get_item (VDict d) k = (case map_of d (ustr k) of None \<Rightarrow> Inl KeyError | Some v \<Rightarrow> Inr v)"
| "get_item c k = Inl TypeError"

text \<open>\<open>c.get(k, default)\<close>: a method of dicts only.\<close>

fun get_default :: "pyval \<Rightarrow> string \<Rightarrow> pyval \<Rightarrow> exn + pyval" where
  "get_default (VDict d) k dflt = Inr (case map_of d (ustr k) of None \<Rightarrow> dflt | Some v \<Rightarrow> v)"
| "get_default c k dflt = Inl AttributeError"

definition make_note :: "anki_model \<Rightarrow> pyval \<Rightarrow> exn + anki_note" where
  "make_note self_model c =
     (case get_item c ''question'' of
        Inl x \<Rightarrow> Inl x
      | Inr q \<Rightarrow>
          (case get_item c ''answer'' of
             Inl x \<Rightarrow> Inl x
           | Inr a \<Rightarrow>
               (case get_item c ''slide'' of
                  Inl x \<Rightarrow> Inl x
                | Inr s \<Rightarrow>
                    (case get_default c ''context'' (VStr []) of
                       Inl x \<Rightarrow> Inl x
                     | Inr ctx \<Rightarrow> Inr \<lparr>note_model = self_model, note_fields = [q, a, s, ctx]\<rparr>))))"

fun add_notes :: "anki_model \<Rightarrow> pyval list \<Rightarrow> deck \<Rightarrow> exn + deck" where
  "add_notes self_model [] d = Inr d"
| "add_notes self_model (c # cards) d =
     (case make_note self_model c of
        Inl x \<Rightarrow> Inl x
      | Inr n \<Rightarrow> add_notes self_model cards (d\<lparr>deck_notes := deck_notes d @ [n]\<rparr>))"

text \<open>The identifier of the deck is drawn at random; here it is an argument.\<close>

definition create_anki_deck :: "anki_model \<Rightarrow> nat \<Rightarrow> pyval list \<Rightarrow> string \<Rightarrow> exn + deck" where
  "create_anki_deck self_model did cards deck_name =
     add_notes self_model cards \<lparr>deck_id = did, name = deck_name, deck_notes = []\<rparr>"

section \<open>Processing a file\<close>

text \<open>
  \<open>os.path.splitext\<close>, \<open>os.path.basename\<close> and \<open>os.path.join\<close> of \<open>posixpath\<close>, and
  \<open>str.lower\<close> on the code points below 256.
\<close>

fun rfind_acc :: "char \<Rightarrow> string \<Rightarrow> int \<Rightarrow> int \<Rightarrow> int" where
  "rfind_acc c [] i found = found"
| "rfind_acc c (x # xs) i found = rfind_acc c xs (i + 1) (if x = c then i else found)"

definition rfind :: "char \<Rightarrow> string \<Rightarrow> int" where
  "rfind c s = rfind_acc c s 0 (- 1)"

definition splitext :: "string \<Rightarrow> string \<times> string" where
  "splitext p =
     (let sepIndex = rfind CHR ''/'' p; dotIndex = rfind CHR ''.'' p in
      if dotIndex > sepIndex \<and>
         list_ex (\<lambda>c. c \<noteq> CHR ''.'') (slice p (nat (sepIndex + 1)) (nat dotIndex))
      then (take (nat dotIndex) p, drop (nat dotIndex) p)
      else (p, []))"

definition basename :: "string \<Rightarrow> string" where
  "basename p = drop (nat (rfind CHR ''/'' p + 1)) p"

definition path_join :: "string \<Rightarrow> string \<Rightarrow> string" where
  "path_join a b =
     (if take 1 b = ''/'' then b
      else if a = [] \<or> last a = CHR ''/'' then a @ b
      else a @ ''/'' @ b)"

definition lower_char :: "char \<Rightarrow> char" where
  "lower_char c = (let n = code c in
     if (65 \<le> n \<and> n \<le> 90) \<or> (192 \<le> n \<and> n \<le> 214) \<or> (216 \<le> n \<and> n \<le> 222)
     then char_of (n + 32) else c)"

definition py_lower :: "string \<Rightarrow> string" where
  "py_lower s = map lower_char s"

text \<open>
  What lies outside the program: the two PDF libraries, which give the texts of the pages
  of a file or raise; the completion client; the package writer; the home directory; the
  random identifier of the deck; the limits of the interpreter.
\<close>

record world =
  pymupdf_pages :: "string \<Rightarrow> exn + string list"
  pypdf2_pages :: "string \<Rightarrow> exn + string list"
  chat_completion :: client
  write_to_file :: "deck \<Rightarrow> string \<Rightarrow> exn option"
  home :: string
  random_id :: nat
  interpreter :: limits

definition pymupdf_slide :: "int \<times> string \<Rightarrow> slide" where
  "pymupdf_slide = (\<lambda>(i, text).
     (case filter (\<lambda>line. py_strip line \<noteq> []) (py_split_nl text) of
        [] \<Rightarrow> \<lparr>title = [], content = [], slide_num = i\<rparr>
      | l # ls \<Rightarrow> \<lparr>title = py_strip l, content = py_strip (py_join [nl] ls), slide_num = i\<rparr>))"

definition pypdf2_slide :: "int \<times> string \<Rightarrow> slide" where
  "pypdf2_slide = (\<lambda>(i, text).
     (case py_split_nl text of
        [] \<Rightarrow> \<lparr>title = [], content = [], slide_num = i\<rparr>
      | l # ls \<Rightarrow> \<lparr>title = py_strip l, content = py_strip (py_join [nl] ls), slide_num = i\<rparr>))"

definition enumerate1 :: "'a list \<Rightarrow> (int \<times> 'a) list" where
  "enumerate1 xs = zip [1..int (length xs)] xs"

definition extract_from_pdf :: "world \<Rightarrow> string \<Rightarrow> exn + slide list" where
  "extract_from_pdf w pdf_path =
     (case pymupdf_pages w pdf_path of
        Inr texts \<Rightarrow> Inr (map pymupdf_slide (enumerate1 texts))
      | Inl x \<Rightarrow>
          if x = ImportError then
            (case pypdf2_pages w pdf_path of
               Inr texts \<Rightarrow> Inr (map pypdf2_slide (enumerate1 texts))
             | Inl x' \<Rightarrow> Inl x')
          else Inl x)"

text \<open>
  \<open>process_file\<close> without a progress callback. The result is what the function returns
  or raises, and the log of the calls of the completion client made on the way.
\<close>

definition process_file ::
    "world \<Rightarrow> anki_model \<Rightarrow> string \<Rightarrow> string \<Rightarrow> (exn + nat \<times> string) \<times> string list" where
  "process_file w self_model file_path deck_name =
     (let file_extension = py_lower (snd (splitext file_path)) in
      if file_extension = ''.pdf'' then
        (case extract_from_pdf w file_path of
           Inl x \<Rightarrow> (Inl x, [])
         | Inr slides_content \<Rightarrow>
             (let st = generate_flashcards_with_deepseek (interpreter w) (chat_completion w)
                         slides_content;
                  cards = all_cards st
              in case create_anki_deck self_model (random_id w) cards deck_name of
                   Inl x \<Rightarrow> (Inl x, requests st)
                 | Inr d \<Rightarrow>
                     (let base_name = fst (splitext (basename file_path));
                          downloads_folder = path_join (home w) ''Downloads'';
                          output_path = path_join downloads_folder (base_name @ ''_flashcards.apkg'')
                      in case write_to_file w d output_path of
                           Some x \<Rightarrow> (Inl x, requests st)
                         | None \<Rightarrow> (Inr (length cards, output_path), requests st))))
      else (Inl (ValueError (''Unsupported file format: '' @ file_extension)), []))"

section \<open>Predicates of the statements\<close>

text \<open>
  A pair \<^verbatim>\<open>{"question": q, "answer": a}\<close> of two strings; a dict whose \<open>slide\<close> entry is a
  given label; a dict with the three entries that the deck builder reads without a
  default; the least number of characters that a match of a pattern consumes.
\<close>

fun is_pair :: "pyval \<Rightarrow> bool" where
  "is_pair (VDict [(k1, VStr q), (k2, VStr a)]) = (k1 = ustr ''question'' \<and> k2 = ustr ''answer'')"
| "is_pair v = False"

fun has_label :: "string \<Rightarrow> pyval \<Rightarrow> bool" where
  "has_label l (VDict d) = (map_of d (ustr ''slide'') = Some (VStr (ustr l)))"
| "has_label l v = False"

fun is_card :: "pyval \<Rightarrow> bool" where
  "is_card (VDict d) =
     (map_of d (ustr ''question'') \<noteq> None \<and> map_of d (ustr ''answer'') \<noteq> None \<and>
      map_of d (ustr ''slide'') \<noteq> None)"
| "is_card v = False"

fun min_len :: "item list \<Rightarrow> nat" where
  "min_len [] = 0"
| "min_len (Rep c lo hi greedy # rest) = lo + min_len rest"
| "min_len (i # rest) = min_len rest"

text \<open>
  The text that the second stage gives to \<open>json.loads\<close>, when the response has a bracketed
  array of objects; and the texts on which \<open>json.loads\<close> returns a value or raises
  \<open>JSONDecodeError\<close>, the exception that \<open>_ask_ai_for_cards\<close> catches.
\<close>

definition stage2_text :: "string \<Rightarrow> string option" where
  "stage2_text cards_text =
     (case re_search array_pattern cards_text of
        None \<Rightarrow> None
      | Some (b, e, r, g) \<Rightarrow> Some (repair_json (slice cards_text b e)))"

definition decode_error_only :: "limits \<Rightarrow> string \<Rightarrow> bool" where
  "decode_error_only lim t =
     (case json_loads lim t of Inl x \<Rightarrow> x = JSONDecodeError | Inr v \<Rightarrow> True)"

text \<open>A text between double quotes, for writing a JSON text.\<close>

abbreviation quoted :: "string \<Rightarrow> string" where
  "quoted s \<equiv> dquote # s @ [dquote]"

section \<open>Properties of the slide cleaner\<close>

lemma split_acc_not_Nil: "split_acc cur s \<noteq> []"
  by (induction s arbitrary: cur) auto

lemma py_split_nl_not_Nil: "py_split_nl s \<noteq> []"
  by (simp add: py_split_nl_def split_acc_not_Nil)

lemma clean_loop_first_match:
  "clean_loop pats t c =
     (if list_ex (\<lambda>pat. re_match pat t \<noteq> None) pats then
        (case py_split_nl c of
           [] \<Rightarrow> (t, c)
         | l # ls \<Rightarrow> if py_strip l \<noteq> [] then (py_strip l, py_strip (py_join [nl] ls)) else (t, c))
      else (t, c))"
  by (induction pats) auto

text \<open>
  The content that the extractor stores is stripped. Such a content, when it is not empty,
  starts with a line that is not blank: there the first line is the first non-empty line.
\<close>

lemma py_strip_hd: "py_strip x = h # t \<Longrightarrow> \<not> is_space h"
proof -
  assume a: "py_strip x = h # t"
  let ?y = "dropWhile is_space x"
  let ?z = "dropWhile is_space (rev ?y)"
  from a have z: "?z = rev (h # t)"
    by (simp add: py_strip_def rev_swap)
  have "rev ?y = takeWhile is_space (rev ?y) @ ?z"
    by simp
  then have "?y = rev ?z @ rev (takeWhile is_space (rev ?y))"
    by (metis rev_append rev_rev_ident)
  with z have "?y = h # (t @ rev (takeWhile is_space (rev ?y)))"
    by simp
  then obtain w where y: "dropWhile is_space x = h # w"
    by blast
  have "\<not> is_space (hd (dropWhile is_space x))"
    using hd_dropWhile [of is_space x] y by (metis list.distinct(1))
  with y show ?thesis by (metis list.sel(1))
qed

lemma split_acc_prefix: "split_acc cur s = l # ls \<Longrightarrow> \<exists>u. l = rev cur @ u"
proof (induction s arbitrary: cur)
  case Nil
  then show ?case by simp
next
  case (Cons a s)
  show ?case
  proof (cases "a = nl")
    case True
    with Cons.prems show ?thesis by simp
  next
    case False
    with Cons.prems have "split_acc (a # cur) s = l # ls" by simp
    from Cons.IH [OF this] obtain u where "l = rev (a # cur) @ u" by blast
    then have "l = rev cur @ (a # u)" by simp
    then show ?thesis by blast
  qed
qed

lemma first_line_of_stripped_content:
  assumes "py_strip x = c" and "c \<noteq> []" and "py_split_nl c = l # ls"
  shows "py_strip l \<noteq> []"
proof -
  from assms(2) obtain h t where c: "c = h # t" by (cases c) auto
  with assms(1) have h: "\<not> is_space h" by (auto dest: py_strip_hd)
  then have "h \<noteq> nl" by (auto simp: is_space_def code_def)
  with assms(3) c have "split_acc [h] t = l # ls" by (simp add: py_split_nl_def)
  from split_acc_prefix [OF this] obtain u where l: "l = h # u" by auto
  have "dropWhile is_space (rev (h # u)) \<noteq> []"
    using h by (simp add: dropWhile_eq_Nil_conv)
  with h l show ?thesis by (simp add: py_strip_def)
qed

text \<open>
  C10. The slide returned by \<open>clean_slide_content\<close> has the slide number of the slide it
  was given: cleaning revises the title and the content only.
\<close>

theorem clean_slide_content_slide_num:
  "slide_num (clean_slide_content s) = slide_num s"
  by (simp add: clean_slide_content_def split: prod.splits)

text \<open>
  C2, as stated, fails: the code looks at the first line of the content only, not at the
  first non-empty one. The title \<open>12\<close> is purely numeric and the content has the
  non-empty line \<open>foo\<close> after an empty first line, yet the slide comes back unchanged.
\<close>

theorem clean_slide_content_first_nonempty_counterexample:
  "re_match (header_patterns ! 1) ''12'' \<noteq> None \<and>
   py_split_nl (nl # ''foo'') = [[], ''foo''] \<and>
   clean_slide_content \<lparr>title = ''12'', content = nl # ''foo'', slide_num = 1\<rparr> =
     \<lparr>title = ''12'', content = nl # ''foo'', slide_num = 1\<rparr>"
  by code_simp

text \<open>
  C2, amended. Let \<open>l\<close> be the first line of the content and \<open>ls\<close> the lines after it.
  If the title matches one of the three header patterns and \<open>l\<close> is not blank, the new
  title is \<open>l\<close> without its surrounding white space and the new content is \<open>ls\<close>, joined
  by newlines, without its surrounding white space. If the title matches a pattern and
  \<open>l\<close> is blank, or if the title matches no pattern, the slide is returned unchanged.
  The loop stops at the first pattern that matches: the patterns after it are not tried,
  so a promoted title that is itself a header is not replaced again.
\<close>

theorem clean_slide_content_first_line:
  assumes "py_split_nl (content s) = l # ls"
  shows "(is_header (title s) \<and> py_strip l \<noteq> [] \<longrightarrow>
            clean_slide_content s =
              \<lparr>title = py_strip l, content = py_strip (py_join [nl] ls), slide_num = slide_num s\<rparr>) \<and>
         (is_header (title s) \<and> py_strip l = [] \<longrightarrow> clean_slide_content s = s) \<and>
         (\<not> is_header (title s) \<longrightarrow> clean_slide_content s = s) \<and>
         (re_match pat (title s) \<noteq> None \<longrightarrow>
            clean_loop (pat # pats) (title s) (content s) = clean_loop [pat] (title s) (content s))"
  using assms
  by (simp add: clean_slide_content_def is_header_def clean_loop_first_match)

theorem clean_slide_content_first_line_witness:
  "py_split_nl (''5'' @ [nl] @ '' foo '' @ [nl] @ ''bar'') = ''5'' # ['' foo '', ''bar''] \<and>
   is_header ''Slide 1'' \<and> py_strip ''5'' \<noteq> [] \<and>
   clean_slide_content \<lparr>title = ''Slide 1'', content = ''5'' @ [nl] @ '' foo '' @ [nl] @ ''bar'',
       slide_num = 1\<rparr> =
     \<lparr>title = ''5'', content = ''foo '' @ [nl] @ ''bar'', slide_num = 1\<rparr> \<and>
   py_split_nl (nl # ''foo'') = [] # [''foo''] \<and> is_header ''12'' \<and> py_strip [] = [] \<and>
   clean_slide_content \<lparr>title = ''12'', content = nl # ''foo'', slide_num = 2\<rparr> =
     \<lparr>title = ''12'', content = nl # ''foo'', slide_num = 2\<rparr> \<and>
   \<not> is_header ''Intro'' \<and>
   clean_slide_content \<lparr>title = ''Intro'', content = ''5'' @ [nl] @ ''bar'', slide_num = 3\<rparr> =
     \<lparr>title = ''Intro'', content = ''5'' @ [nl] @ ''bar'', slide_num = 3\<rparr> \<and>
   re_match (lit ''Slide '' @ [Plus Digit]) ''Slide 1'' \<noteq> None \<and>
   clean_loop ((lit ''Slide '' @ [Plus Digit]) # [[Plus Digit]]) ''Slide 1'' (''5'' @ [nl] @ ''bar'') =
     (''5'', ''bar'')"
proof -
  have a: "py_split_nl (''5'' @ [nl] @ '' foo '' @ [nl] @ ''bar'') = ''5'' # ['' foo '', ''bar'']"
    by code_simp
  have b: "py_split_nl (nl # ''foo'') = [] # [''foo'']"
    by code_simp
  have c: "py_split_nl (''5'' @ [nl] @ ''bar'') = ''5'' # [''bar'']"
    by code_simp
  have h1: "is_header ''Slide 1''" and h2: "is_header ''12''" and h3: "\<not> is_header ''Intro''"
    by code_simp+
  have s1: "py_strip ''5'' \<noteq> []" and s2: "py_strip [] = []"
    by code_simp+
  have m: "re_match (lit ''Slide '' @ [Plus Digit]) ''Slide 1'' \<noteq> None"
    by code_simp
  have j: "py_strip (py_join [nl] ['' foo '', ''bar'']) = ''foo '' @ [nl] @ ''bar''"
    by code_simp
  have k: "clean_loop [lit ''Slide '' @ [Plus Digit]] ''Slide 1'' (''5'' @ [nl] @ ''bar'') = (''5'', ''bar'')"
    by code_simp
  note t1 = clean_slide_content_first_line
    [of "\<lparr>title = ''Slide 1'', content = ''5'' @ [nl] @ '' foo '' @ [nl] @ ''bar'', slide_num = 1\<rparr>"
        "''5''" "['' foo '', ''bar'']"]
  note t2 = clean_slide_content_first_line
    [of "\<lparr>title = ''12'', content = nl # ''foo'', slide_num = 2\<rparr>" "[]" "[''foo'']"]
  note t3 = clean_slide_content_first_line
    [of "\<lparr>title = ''Intro'', content = ''5'' @ [nl] @ ''bar'', slide_num = 3\<rparr>" "''5''" "[''bar'']"]
  note t4 = clean_slide_content_first_line
    [of "\<lparr>title = ''Slide 1'', content = ''5'' @ [nl] @ ''bar'', slide_num = 3\<rparr>" "''5''" "[''bar'']"
        "lit ''Slide '' @ [Plus Digit]" "[[Plus Digit]]"]
  show ?thesis
    using t1 t2 t3 t4 a b c h1 h2 h3 s1 s2 m j k by simp
qed
section \<open>Properties of the matcher\<close>

lemma rep_result:
  "rep c lo hi greedy k p s = Some res \<Longrightarrow>
     \<exists>n. lo \<le> n \<and> n \<le> length s \<and> k (p + n) (drop n s) = Some res"
proof (induction s arbitrary: lo hi p)
  case Nil
  then show ?case by (auto split: if_splits)
next
  case (Cons x xs)
  let ?more = "rep c (lo - 1) (dec hi) greedy k (Suc p) xs"
  from Cons.prems consider
      (more) "?more = Some res"
    | (stop) "lo = 0" "k p (x # xs) = Some res"
    by (auto split: if_splits option.splits)
  then show ?case
  proof cases
    case more
    from Cons.IH [OF this] obtain n where
      "lo - 1 \<le> n" "n \<le> length xs" "k (Suc p + n) (drop n xs) = Some res" by blast
    then have "lo \<le> Suc n \<and> Suc n \<le> length (x # xs) \<and>
        k (p + Suc n) (drop (Suc n) (x # xs)) = Some res"
      by simp
    then show ?thesis by blast
  next
    case stop
    then have "lo \<le> 0 \<and> 0 \<le> length (x # xs) \<and> k (p + 0) (drop 0 (x # xs)) = Some res"
      by simp
    then show ?thesis by blast
  qed
qed

lemma rx_result:
  "rx pat p s g = Some (e, r, g') \<Longrightarrow>
     \<exists>n. min_len pat \<le> n \<and> n \<le> length s \<and> e = p + n \<and> r = drop n s"
proof (induction pat p s g rule: rx.induct)
  case (1 p s g)
  then show ?case by simp
next
  case (2 c lo hi greedy rest p s g)
  from rep_result [OF "2.prems" [simplified]] obtain n where
    n: "lo \<le> n" "n \<le> length s" "rx rest (p + n) (drop n s) g = Some (e, r, g')" by blast
  from "2.IH" [OF n(3)] obtain m where
    m: "min_len rest \<le> m" "m \<le> length (drop n s)" "e = p + n + m" "r = drop m (drop n s)" by blast
  have "min_len (Rep c lo hi greedy # rest) \<le> n + m \<and> n + m \<le> length s \<and> e = p + (n + m) \<and> r = drop (n + m) s"
    using n m by (simp add: add.commute)
  then show ?case by blast
next
  case (3 rest p s g)
  then show ?case by simp
next
  case (4 rest p s g)
  then show ?case by simp
next
  case (5 rest p s g)
  then show ?case by (simp split: if_splits)
next
  case (6 rest p s g)
  then show ?case by (simp split: if_splits)
qed

lemma search_from_result:
  "search_from pat p s = Some (b, e, r, g) \<Longrightarrow>
     \<exists>n. min_len pat \<le> n \<and> n \<le> length s \<and> r = drop n s"
proof (induction s arbitrary: p)
  case Nil
  then show ?case by (auto split: option.splits dest: rx_result)
next
  case (Cons x xs)
  show ?case
  proof (cases "rx pat p (x # xs) []")
    case None
    with Cons.prems have "search_from pat (Suc p) xs = Some (b, e, r, g)" by simp
    from Cons.IH [OF this] obtain n where "min_len pat \<le> n" "n \<le> length xs" "r = drop n xs" by blast
    then have "min_len pat \<le> Suc n \<and> Suc n \<le> length (x # xs) \<and> r = drop (Suc n) (x # xs)" by simp
    then show ?thesis by blast
  next
    case (Some a)
    with Cons.prems have "rx pat p (x # xs) [] = Some (e, r, g)" by (auto split: prod.splits)
    from rx_result [OF this] show ?thesis by blast
  qed
qed

lemma search_from_shorter:
  "0 < min_len pat \<Longrightarrow> search_from pat p s = Some (b, e, r, g) \<Longrightarrow> length r < length s"
  by (drule search_from_result) auto

lemma scanned_patterns_consume:
  "0 < min_len key_pattern" "0 < min_len value_pattern" "0 < min_len qa_pattern"
  "0 < min_len question_pattern" "0 < min_len answer_pattern" "0 < min_len [One quote]"
  by (simp_all add: key_pattern_def value_pattern_def qa_pattern_def question_pattern_def
      answer_pattern_def lit_def)

lemma find_iter_unguarded:
  assumes "0 < min_len pat"
  shows "find_iter pat p s =
     (case search_from pat p s of
        None \<Rightarrow> []
      | Some (b, e, r, g) \<Rightarrow> (b, e, g) # find_iter pat e r)"
proof (cases "search_from pat p s")
  case None
  then show ?thesis by (subst find_iter.simps) simp
next
  case (Some m)
  obtain b e r g where m: "m = (b, e, r, g)" by (cases m)
  from assms Some m have "length r < length s"
    by (auto dest: search_from_shorter)
  with Some m show ?thesis
    by (subst find_iter.simps) simp
qed

lemma extract_json_pattern_stage2:
  "extract_json_pattern lim t =
     (case stage2_text t of
        None \<Rightarrow> Inr None
      | Some js \<Rightarrow>
          (case json_loads lim js of
             Inr cards \<Rightarrow> Inr (Some cards)
           | Inl x \<Rightarrow> if x = JSONDecodeError \<or> x = AttributeError then Inr None else Inl x))"
  by (simp add: extract_json_pattern_def stage2_text_def split: option.splits prod.splits)

lemma extract_json_pattern_returns:
  assumes "\<And>js. stage2_text t = Some js \<Longrightarrow> decode_error_only lim js"
  shows "\<exists>r. extract_json_pattern lim t = Inr r"
proof (cases "stage2_text t")
  case None
  then show ?thesis by (simp add: extract_json_pattern_stage2)
next
  case (Some js)
  with assms have "decode_error_only lim js" by blast
  with Some show ?thesis
    by (auto simp: extract_json_pattern_stage2 decode_error_only_def split: sum.splits)
qed

text \<open>An exception of \<open>json.loads\<close> other than \<open>JSONDecodeError\<close> leaves the function.\<close>

lemma parse_response_uncaught:
  "json_loads lim t = Inl x \<Longrightarrow> x \<noteq> JSONDecodeError \<Longrightarrow> parse_response lim t s = Inl x"
  by (simp add: parse_response_def)

lemma is_pair_pair_card: "is_pair (pair_card q a)"
  by (simp add: pair_card_def)

lemma qa_pairs_pairs: "list_all is_pair (qa_pairs t)"
  by (simp add: qa_pairs_def list_all_iff is_pair_pair_card split_beta)

lemma lenient_pairs_pairs: "list_all is_pair (lenient_pairs t)"
  by (simp add: lenient_pairs_def list_all_iff is_pair_pair_card split_beta)

lemma manual_extraction_pairs:
  "\<exists>ps. manual_extraction t s = VList ps \<and> ps \<noteq> [] \<and> list_all is_pair ps"
  by (simp add: manual_extraction_def Let_def qa_pairs_pairs lenient_pairs_pairs is_pair_pair_card)

section \<open>Properties of the JSON scanner\<close>

text \<open>
  A value that is scanned consumes at least one character, so the tests on the lengths in
  \<open>parse_array\<close> and \<open>parse_object\<close>, which are there for the termination of the
  definition, never fail.
\<close>

lemma take_eq_length: "take n s = t \<Longrightarrow> length t = n \<Longrightarrow> 0 < n \<Longrightarrow> length (drop n s) < length s"
  by (cases "n \<le> length s") auto

lemma fraction_length: "length (snd (fraction s)) \<le> length s"
  by (auto simp: fraction_def split: list.splits intro: le_trans [OF length_dropWhile_le])

lemma exponent_length: "length (snd (exponent s)) \<le> length s"
  by (auto simp: exponent_def Let_def split: list.splits prod.splits if_splits
      intro: le_trans [OF length_dropWhile_le])

lemma match_number_shorter: "match_number lim s = Inr (v, r) \<Longrightarrow> length r < length s"
proof -
  assume a: "match_number lim s = Inr (v, r)"
  obtain sg s1 where sg: "(case s of [] \<Rightarrow> ([], s) | c # cs \<Rightarrow> if c = CHR ''-'' then ([c], cs) else ([], s)) = (sg, s1)"
    by (cases "(case s of [] \<Rightarrow> ([]::string, s) | c # cs \<Rightarrow> if c = CHR ''-'' then ([c], cs) else ([], s))")
  have s1: "length s1 \<le> length s"
    using sg by (auto split: list.splits if_splits)
  from a sg obtain d ds where d: "s1 = d # ds" "is_digit d"
    by (cases s1) (auto simp: match_number_def split: if_splits)
  obtain ip r1 where ip: "(if d = CHR ''0'' then ([d], ds)
       else (d # takeWhile is_digit ds, dropWhile is_digit ds)) = (ip, r1)"
    by (cases "(if d = CHR ''0'' then ([d], ds)
       else (d # takeWhile is_digit ds, dropWhile is_digit ds))")
  have r1: "length r1 \<le> length ds"
    using ip by (auto split: if_splits intro: length_dropWhile_le)
  have "r = snd (exponent (snd (fraction r1)))"
    using a sg d ip by (auto simp: match_number_def Let_def split: prod.splits if_splits)
  then have "length r \<le> length r1"
    using exponent_length [of "snd (fraction r1)"] fraction_length [of r1] by simp
  with r1 d s1 show ?thesis by simp
qed

lemma scan_atom_shorter: "scan_atom lim s = Inr (v, r) \<Longrightarrow> length r < length s"
  by (auto simp: scan_atom_def split: if_splits dest: match_number_shorter
      intro: take_eq_length)

lemma scan_shorter:
  "scan_once lim n s = Inr (v, r) \<Longrightarrow> length r < length s"
  "parse_array lim1 n1 s1 acc1 = Inr (v1, r1) \<Longrightarrow> length r1 < length s1"
  "parse_object lim2 n2 s2 acc2 = Inr (v2, r2) \<Longrightarrow> length r2 < length s2"
proof (induction lim n s and lim1 n1 s1 acc1 and lim2 n2 s2 acc2
    arbitrary: v r and v1 r1 and v2 r2
    rule: scan_once_parse_array_parse_object.induct)
  case (1 lim n s)
  note p = "1.prems" [unfolded scan_once.simps [of lim n s]]
  show ?case
  proof (cases s)
    case Nil
    with p show ?thesis by simp
  next
    case (Cons c cs)
    consider (str) "c = dquote" | (obj) "c \<noteq> dquote" "c = CHR ''{''"
      | (arr) "c \<noteq> dquote" "c \<noteq> CHR ''{''" "c = CHR ''[''"
      | (atom) "c \<noteq> dquote" "c \<noteq> CHR ''{''" "c \<noteq> CHR ''[''"
      by blast
    then show ?thesis
    proof cases
      case str
      with p Cons obtain u where "scanstring cs [] = Some (u, r)"
        by (auto split: option.splits)
      from scanstring_shorter [OF this] Cons show ?thesis by simp
    next
      case obj
      with p Cons have n: "n \<noteq> 0"
        by (auto split: if_splits)
      with p Cons obj obtain d ds where d: "skip_ws cs = d # ds"
        by (cases "skip_ws cs") auto
      show ?thesis
      proof (cases "d = CHR ''}''")
        case True
        with p Cons obj n d have "r = ds" by simp
        with skip_ws_Cons [OF d] Cons show ?thesis by simp
      next
        case False
        with p Cons obj n d have "parse_object lim (n - 1) (d # ds) [] = Inr (v, r)" by simp
        with "1.IH"(1) Cons obj n d False have "length r < length (d # ds)" by blast
        with skip_ws_length [of cs] d Cons show ?thesis by simp
      qed
    next
      case arr
      with p Cons have n: "n \<noteq> 0"
        by (auto split: if_splits)
      with p Cons arr obtain d ds where d: "skip_ws cs = d # ds"
        by (cases "skip_ws cs") auto
      show ?thesis
      proof (cases "d = CHR '']''")
        case True
        with p Cons arr n d have "r = ds" by simp
        with skip_ws_Cons [OF d] Cons show ?thesis by simp
      next
        case False
        with p Cons arr n d have "parse_array lim (n - 1) (d # ds) [] = Inr (v, r)" by simp
        with "1.IH"(2) Cons arr n d False have "length r < length (d # ds)" by blast
        with skip_ws_length [of cs] d Cons show ?thesis by simp
      qed
    next
      case atom
      with p Cons have "scan_atom lim s = Inr (v, r)" by simp
      from scan_atom_shorter [OF this] show ?thesis .
    qed
  qed
next
  case (2 lim n s acc)
  note p = "2.prems" [unfolded parse_array.simps [of lim n s acc]]
  from p obtain v r where vr: "scan_once lim n s = Inr (v, r)" "length r < length s"
    by (auto split: sum.splits if_splits)
  from p vr obtain d ds where d: "skip_ws r = d # ds"
    by (cases "skip_ws r") auto
  have ds: "length ds < length s"
    using skip_ws_Cons [OF d] vr(2) by simp
  show ?case
  proof (cases "d = CHR '']''")
    case True
    with p vr d have "r1 = ds" by simp
    with ds show ?thesis by simp
  next
    case False
    with p vr d have c: "d = CHR '',''" and
      rec: "parse_array lim n (skip_ws ds) (acc @ [v]) = Inr (v1, r1)"
      by (auto split: if_splits)
    from "2.IH"(2) vr d False c rec have "length r1 < length (skip_ws ds)" by blast
    with skip_ws_length [of ds] ds show ?thesis by simp
  qed
next
  case (3 lim n s acc)
  note p = "3.prems" [unfolded parse_object.simps [of lim n s acc]]
  from p obtain c cs where s: "s = c # cs" "c = dquote"
    by (cases s) (auto split: if_splits)
  from p s obtain key r where k: "scanstring cs [] = Some (key, r)"
    by (auto split: option.splits)
  from p s k obtain d ds where d: "skip_ws r = d # ds" "d = CHR '':''"
    by (cases "skip_ws r") (auto split: if_splits)
  from p s k d obtain v ra where v: "scan_once lim n (skip_ws ds) = Inr (v, ra)"
      "length ra < length (skip_ws ds)"
    by (auto split: sum.splits if_splits)
  from p s k d v obtain e es where e: "skip_ws ra = e # es"
    by (cases "skip_ws ra") auto
  have es: "length es < length s"
    using skip_ws_Cons [OF e] v(2) skip_ws_length [of ds] skip_ws_Cons [OF d(1)]
      scanstring_shorter [OF k] s
    by simp
  show ?case
  proof (cases "e = CHR ''}''")
    case True
    with p s k d v e have "r2 = es" by simp
    with es show ?thesis by simp
  next
    case False
    with p s k d v e have c: "e = CHR '',''" and
      rec: "parse_object lim n (skip_ws es) (dict_set key v acc) = Inr (v2, r2)"
      by (auto split: if_splits)
    have nd: "\<not> c \<noteq> dquote" using s by simp
    have ndc: "\<not> d \<noteq> CHR '':''" using d by simp
    from "3.IH"(2) s(1) nd k d(1) ndc v e False c rec
    have "length r2 < length (skip_ws es)" by blast
    with skip_ws_length [of es] es show ?thesis by simp
  qed
qed

lemma parse_array_unguarded:
  "parse_array lim n s acc =
     (case scan_once lim n s of
        Inl x \<Rightarrow> Inl x
      | Inr (v, r) \<Rightarrow>
          (case skip_ws r of
             [] \<Rightarrow> Inl JSONDecodeError
           | d # ds \<Rightarrow>
               if d = CHR '']'' then Inr (VList (acc @ [v]), ds)
               else if d = CHR '','' then parse_array lim n (skip_ws ds) (acc @ [v])
               else Inl JSONDecodeError))"
proof (cases "scan_once lim n s")
  case (Inl x)
  then show ?thesis by (subst parse_array.simps) simp
next
  case (Inr m)
  obtain v r where m: "m = (v, r)" by (cases m)
  from Inr m have "length r < length s" by (simp add: scan_shorter(1))
  with Inr m show ?thesis by (subst parse_array.simps) simp
qed

lemma parse_object_value_unguarded:
  "scan_once lim n s = Inr (v, r) \<Longrightarrow> (if length r < length s then x else y) = x"
  by (simp add: scan_shorter(1))

text \<open>
  The two limits at work: more open brackets than there are levels of recursion left, and
  an integer of more digits than the limit. Neither exception is a \<open>JSONDecodeError\<close>, so
  neither is caught in \<open>_ask_ai_for_cards\<close>.
\<close>

lemma skip_ws_replicate: "\<not> is_json_ws c \<Longrightarrow> skip_ws (replicate k c) = replicate k c"
  by (cases k) (simp_all add: skip_ws_def)

lemma scan_once_deep_nesting:
  "n < k \<Longrightarrow> scan_once lim n (replicate k CHR ''['') = Inl RecursionError"
proof (induction n arbitrary: k)
  case 0
  then obtain k' where "k = Suc k'" by (cases k) auto
  then show ?case by (subst scan_once.simps) simp
next
  case (Suc n)
  then obtain k' where k: "k = Suc k'" "n < k'" by (cases k) auto
  then obtain k'' where k': "k' = Suc k''" by (cases k') auto
  have ws: "skip_ws (replicate k' CHR ''['') = CHR ''['' # replicate k'' CHR ''[''"
    using skip_ws_replicate [of "CHR ''[''" k'] k' by (simp add: is_json_ws_def)
  have "parse_array lim n (CHR ''['' # replicate k'' CHR ''['') [] = Inl RecursionError"
    using Suc.IH [OF k(2)] k' by (subst parse_array.simps) simp
  then show ?case
    using k ws by (subst scan_once.simps) simp
qed

lemma json_loads_deep_nesting:
  "max_depth lim < k \<Longrightarrow> json_loads lim (replicate k CHR ''['') = Inl RecursionError"
  using skip_ws_replicate [of "CHR ''[''" k]
  by (simp add: json_loads_def is_json_ws_def scan_once_deep_nesting)

lemma json_loads_long_integer:
  assumes "max_digits lim \<noteq> 0" and "max_digits lim < k"
  shows "json_loads lim (replicate k CHR ''1'') =
           Inl (ValueError ''Exceeds the limit for integer string conversion'')"
proof -
  from assms obtain k' where k: "k = Suc k'" by (cases k) auto
  have d: "is_digit CHR ''1''" by (simp add: is_digit_def code_def)
  have "match_number lim (CHR ''1'' # replicate k' CHR ''1'') =
      Inl (ValueError ''Exceeds the limit for integer string conversion'')"
    using assms k d by (simp add: match_number_def fraction_def exponent_def)
  then have "scan_atom lim (CHR ''1'' # replicate k' CHR ''1'') =
      Inl (ValueError ''Exceeds the limit for integer string conversion'')"
    by (simp add: scan_atom_def)
  then have "scan_once lim (max_depth lim) (replicate k CHR ''1'') =
      Inl (ValueError ''Exceeds the limit for integer string conversion'')"
    using k by (subst scan_once.simps) simp
  then show ?thesis
    using skip_ws_replicate [of "CHR ''1''" k] by (simp add: json_loads_def is_json_ws_def)
qed

lemma parse_response_deep_nesting:
  "max_depth lim < k \<Longrightarrow> parse_response lim (replicate k CHR ''['') slide_text = Inl RecursionError"
  by (simp add: parse_response_uncaught json_loads_deep_nesting)

lemma parse_response_long_integer:
  "max_digits lim \<noteq> 0 \<Longrightarrow> max_digits lim < k \<Longrightarrow>
     parse_response lim (replicate k CHR ''1'') slide_text =
       Inl (ValueError ''Exceeds the limit for integer string conversion'')"
  by (simp add: parse_response_uncaught json_loads_long_integer)
section \<open>Properties of the generator, the deck builder and the file processing\<close>

lemma clean_slide_num: "slide_num (clean_slide_content s) = slide_num s"
  by (simp add: clean_slide_content_def split: prod.splits)

lemma map_of_dict_set:
  "map_of (dict_set k v d) k' = (if k' = k then Some v else map_of d k')"
  by (induction d) auto

lemma set_item_Inr:
  "set_item c k v = Inr c' \<Longrightarrow> \<exists>d. c = VDict d \<and> c' = VDict (dict_set (ustr k) v d)"
  by (cases c) auto

lemma slide_key_not_context: "ustr ''slide'' \<noteq> ustr ''context''"
  by (simp add: ustr_def)

lemma stamp_cards_labels:
  "stamp_cards label ctx items = Inr cs \<Longrightarrow> list_all (has_label label) cs"
proof (induction items arbitrary: cs)
  case Nil
  then show ?case by simp
next
  case (Cons c items)
  from Cons.prems obtain c1 c2 cs' where
    c1: "set_item c ''slide'' (VStr (ustr label)) = Inr c1" and
    c2: "set_item c1 ''context'' (VStr (ustr ctx)) = Inr c2" and
    cs': "stamp_cards label ctx items = Inr cs'" and
    cs: "cs = c2 # cs'"
    by (auto split: sum.splits)
  from c1 obtain d where d: "c1 = VDict (dict_set (ustr ''slide'') (VStr (ustr label)) d)"
    by (auto dest: set_item_Inr)
  from c2 d have "c2 = VDict (dict_set (ustr ''context'') (VStr (ustr ctx))
      (dict_set (ustr ''slide'') (VStr (ustr label)) d))"
    by simp
  then have "has_label label c2"
    using slide_key_not_context by (simp add: map_of_dict_set)
  with Cons.IH [OF cs'] cs show ?case by simp
qed

lemma attempt_log: "snd (attempt lim client cs log) = log @ [full_text cs]"
  by (simp add: attempt_def ask_ai_for_cards_def split: sum.splits prod.splits)

lemma attempt_labels:
  "attempt lim client cs log = (Inr cards, log') \<Longrightarrow> list_all (has_label (slide_label cs)) cards"
  by (auto simp: attempt_def split: sum.splits prod.splits dest: stamp_cards_labels)

lemma retry_loop_result:
  "\<exists>k new. retry_loop lim client cs retry_count st =
       (fst (retry_loop lim client cs retry_count st),
        \<lparr>all_cards = all_cards st @ new, requests = requests st @ replicate k (full_text cs)\<rparr>) \<and>
     list_all (has_label (slide_label cs)) new \<and>
     (retry_count < max_retries \<longrightarrow> 0 < k) \<and>
     (\<not> fst (retry_loop lim client cs retry_count st) \<longrightarrow> new = [])"
proof (induction lim client cs retry_count st rule: retry_loop.induct)
  case (1 lim client cs rc st)
  let ?ft = "full_text cs"
  show ?case
  proof (cases "rc < max_retries")
    case False
    then have "retry_loop lim client cs rc st = (False, st)"
      by (subst retry_loop.simps) simp
    then have "retry_loop lim client cs rc st =
        (fst (retry_loop lim client cs rc st),
         \<lparr>all_cards = all_cards st @ [], requests = requests st @ replicate 0 ?ft\<rparr>) \<and>
        list_all (has_label (slide_label cs)) [] \<and> (rc < max_retries \<longrightarrow> 0 < (0::nat)) \<and>
        (\<not> fst (retry_loop lim client cs rc st) \<longrightarrow> [] = ([]::pyval list))"
      using False by simp
    then show ?thesis by blast
  next
    case True
    obtain r log' where a: "attempt lim client cs (requests st) = (r, log')"
      by (cases "attempt lim client cs (requests st)")
    have log': "log' = requests st @ [?ft]"
      using attempt_log [of lim client cs "requests st"] a by simp
    show ?thesis
    proof (cases r)
      case (Inr cards)
      have "retry_loop lim client cs rc st =
          (True, \<lparr>all_cards = all_cards st @ cards, requests = log'\<rparr>)"
        using True a Inr by (subst retry_loop.simps) simp
      moreover have "list_all (has_label (slide_label cs)) cards"
        using a Inr attempt_labels by blast
      ultimately have "retry_loop lim client cs rc st =
          (fst (retry_loop lim client cs rc st),
           \<lparr>all_cards = all_cards st @ cards, requests = requests st @ replicate 1 ?ft\<rparr>) \<and>
          list_all (has_label (slide_label cs)) cards \<and> (rc < max_retries \<longrightarrow> 0 < (1::nat)) \<and>
          (\<not> fst (retry_loop lim client cs rc st) \<longrightarrow> cards = [])"
        using log' by simp
      then show ?thesis by blast
    next
      case (Inl x)
      have eq: "retry_loop lim client cs rc st =
          retry_loop lim client cs (rc + 1) (st\<lparr>requests := log'\<rparr>)"
        using True a Inl by (subst retry_loop.simps) simp
      from "1.IH" [OF True a [symmetric] Inl] obtain k new where
        IH: "retry_loop lim client cs (rc + 1) (st\<lparr>requests := log'\<rparr>) =
           (fst (retry_loop lim client cs (rc + 1) (st\<lparr>requests := log'\<rparr>)),
            \<lparr>all_cards = all_cards (st\<lparr>requests := log'\<rparr>) @ new,
             requests = requests (st\<lparr>requests := log'\<rparr>) @ replicate k ?ft\<rparr>)"
          "list_all (has_label (slide_label cs)) new"
          "\<not> fst (retry_loop lim client cs (rc + 1) (st\<lparr>requests := log'\<rparr>)) \<longrightarrow> new = []"
        by blast
      have "retry_loop lim client cs rc st =
          (fst (retry_loop lim client cs rc st),
           \<lparr>all_cards = all_cards st @ new, requests = requests st @ replicate (Suc k) ?ft\<rparr>) \<and>
          list_all (has_label (slide_label cs)) new \<and> (rc < max_retries \<longrightarrow> 0 < Suc k) \<and>
          (\<not> fst (retry_loop lim client cs rc st) \<longrightarrow> new = [])"
        using IH eq log' by (simp add: replicate_app_Cons_same)
      then show ?thesis by blast
    qed
  qed
qed


lemma fallback_card_label: "has_label (slide_label cs) (fallback_card cs)"
  by (simp add: fallback_card_def ustr_def)

lemma process_slide_result:
  "\<exists>k new. process_slide lim client slide st =
       \<lparr>all_cards = all_cards st @ new,
        requests = requests st @ replicate k (full_text (clean_slide_content slide))\<rparr> \<and>
     list_all (has_label (slide_label (clean_slide_content slide))) new \<and>
     (has_meaningful_content (clean_slide_content slide) \<longrightarrow> 0 < k) \<and>
     (\<not> has_meaningful_content (clean_slide_content slide) \<longrightarrow> k = 0 \<and> new = [])"
proof (cases "has_meaningful_content (clean_slide_content slide)")
  case False
  then have "process_slide lim client slide st =
      \<lparr>all_cards = all_cards st @ [],
       requests = requests st @ replicate 0 (full_text (clean_slide_content slide))\<rparr>"
    by (simp add: process_slide_def)
  with False show ?thesis by force
next
  case True
  let ?cs = "clean_slide_content slide"
  from retry_loop_result [of lim client ?cs 0 st] obtain k new where
    r: "retry_loop lim client ?cs 0 st =
         (fst (retry_loop lim client ?cs 0 st),
          \<lparr>all_cards = all_cards st @ new, requests = requests st @ replicate k (full_text ?cs)\<rparr>)"
       "list_all (has_label (slide_label ?cs)) new" "0 < k"
    by (auto simp: max_retries_def)
  define b where "b = fst (retry_loop lim client ?cs 0 st)"
  have r1: "retry_loop lim client ?cs 0 st =
      (b, \<lparr>all_cards = all_cards st @ new, requests = requests st @ replicate k (full_text ?cs)\<rparr>)"
    using r(1) unfolding b_def .
  let ?extra = "if \<not> b \<and> title ?cs \<noteq> [] then [fallback_card ?cs] else []"
  have "process_slide lim client slide st =
      \<lparr>all_cards = all_cards st @ (new @ ?extra),
       requests = requests st @ replicate k (full_text ?cs)\<rparr>"
    using True by (simp add: process_slide_def Let_def r1)
  moreover have "list_all (has_label (slide_label ?cs)) (new @ ?extra)"
    using r(2) fallback_card_label by simp
  ultimately show ?thesis using True r(3) by blast
qed


lemma attempt_fails:
  "isl (fst (attempt lim client cs log)) \<Longrightarrow> \<exists>x. attempt lim client cs log = (Inl x, log @ [full_text cs])"
  using attempt_log [of lim client cs log]
  by (cases "attempt lim client cs log") (auto simp: isl_def)

lemma retry_loop_three_failures:
  assumes "isl (fst (attempt lim client cs (requests st)))"
    and "isl (fst (attempt lim client cs (requests st @ [full_text cs])))"
    and "isl (fst (attempt lim client cs (requests st @ [full_text cs, full_text cs])))"
  shows "retry_loop lim client cs 0 st =
     (False, st\<lparr>requests := requests st @ [full_text cs, full_text cs, full_text cs]\<rparr>)"
proof -
  let ?ft = "full_text cs"
  from attempt_fails [OF assms(1)] obtain x0 where
    a0: "attempt lim client cs (requests st) = (Inl x0, requests st @ [?ft])" by blast
  from attempt_fails [OF assms(2)] obtain x1 where
    a1: "attempt lim client cs (requests st @ [?ft]) = (Inl x1, requests st @ [?ft, ?ft])" by auto
  from attempt_fails [OF assms(3)] obtain x2 where
    a2: "attempt lim client cs (requests st @ [?ft, ?ft]) = (Inl x2, requests st @ [?ft, ?ft, ?ft])"
    by auto
  have "retry_loop lim client cs 0 st = retry_loop lim client cs 1 (st\<lparr>requests := requests st @ [?ft]\<rparr>)"
    using a0 by (subst retry_loop.simps) (simp add: max_retries_def numeral_2_eq_2 numeral_3_eq_3)
  also have "\<dots> = retry_loop lim client cs 2 (st\<lparr>requests := requests st @ [?ft, ?ft]\<rparr>)"
    using a1 by (subst retry_loop.simps) (simp add: max_retries_def numeral_2_eq_2 numeral_3_eq_3)
  also have "\<dots> = retry_loop lim client cs 3 (st\<lparr>requests := requests st @ [?ft, ?ft, ?ft]\<rparr>)"
    using a2 by (subst retry_loop.simps) (simp add: max_retries_def numeral_2_eq_2 numeral_3_eq_3)
  also have "\<dots> = (False, st\<lparr>requests := requests st @ [?ft, ?ft, ?ft]\<rparr>)"
    by (subst retry_loop.simps) (simp add: max_retries_def numeral_2_eq_2 numeral_3_eq_3)
  finally show ?thesis .
qed

lemma make_note_card:
  "is_card c \<Longrightarrow>
     \<exists>n. make_note m c = Inr n \<and> note_model n = m \<and>
       map Inr (note_fields n) =
         [get_item c ''question'', get_item c ''answer'', get_item c ''slide'',
          get_default c ''context'' (VStr [])]"
  by (cases c) (auto simp: make_note_def split: option.splits)

lemma add_notes_cards:
  "list_all is_card cards \<Longrightarrow>
     \<exists>ns. add_notes m cards d = Inr (d\<lparr>deck_notes := deck_notes d @ ns\<rparr>) \<and>
       list_all2 (\<lambda>c n. make_note m c = Inr n) cards ns"
proof (induction cards arbitrary: d)
  case Nil
  then show ?case by simp
next
  case (Cons c cards)
  from Cons.prems make_note_card [of c m] obtain n where n: "make_note m c = Inr n"
    by auto
  from Cons.prems have "list_all is_card cards" by simp
  from Cons.IH [OF this, of "d\<lparr>deck_notes := deck_notes d @ [n]\<rparr>"] obtain ns where
    ns: "add_notes m cards (d\<lparr>deck_notes := deck_notes d @ [n]\<rparr>) =
          Inr (d\<lparr>deck_notes := deck_notes d @ [n]\<rparr>\<lparr>deck_notes :=
            deck_notes (d\<lparr>deck_notes := deck_notes d @ [n]\<rparr>) @ ns\<rparr>)"
        "list_all2 (\<lambda>c n. make_note m c = Inr n) cards ns"
    by blast
  have "add_notes m (c # cards) d = Inr (d\<lparr>deck_notes := deck_notes d @ (n # ns)\<rparr>) \<and>
      list_all2 (\<lambda>c n. make_note m c = Inr n) (c # cards) (n # ns)"
    using n ns by simp
  then show ?case by blast
qed

section \<open>The claims about the recovery of cards\<close>

lemmas eval_defs = parse_response_def json_loads_def skip_ws_def is_json_ws_def scan_atom_def
  match_number_def is_digit_def is_word_def is_space_def code_def
  extract_json_pattern_def re_search_def array_pattern_def manual_extraction_def
  qa_pairs_def qa_pattern_def lit_def quote_def find_iter.simps
  lenient_pairs_def q_blocks_def a_blocks_def question_pattern_def answer_pattern_def
  repair_json_def re_sub_def key_pattern_def value_pattern_def group_text_def slice_def
  scan_once.simps parse_array.simps parse_object.simps
  default_limits_def stage2_text_def decode_error_only_def

text \<open>
  C1, as stated, fails: the response \<open>[]\<close>, which the prompt itself asks for when a slide
  has too little content, is JSON, so the first stage returns it as it is: an empty list.
\<close>

theorem parse_response_empty_counterexample:
  "parse_response default_limits ''[]'' ''Title: T'' = Inr (VList [])"
  by code_simp

text \<open>
  C1, amended. For every response text and every slide text on which \<open>json.loads\<close> raises
  nothing but \<open>JSONDecodeError\<close> (on the whole response and, when the first stage has
  failed and the second stage finds a bracketed array, on its repaired text), the part of
  \<open>_ask_ai_for_cards\<close> after the call of the client raises nothing and returns a value. A
  parse failure at a stage leads to the next stage: the value is what \<open>json.loads\<close> gives
  for the whole response when that succeeds (any JSON value, possibly an empty list); else
  what \<open>json.loads\<close> gives for the repaired bracketed part when there is one and it
  parses; else a non-empty list of \<open>{question, answer}\<close> pairs of strings.
\<close>

theorem parse_response_returns:
  assumes "decode_error_only lim cards_text"
    and "\<And>js. json_loads lim cards_text = Inl JSONDecodeError \<Longrightarrow>
           stage2_text cards_text = Some js \<Longrightarrow> decode_error_only lim js"
  shows "\<exists>cards. parse_response lim cards_text slide_text = Inr cards \<and>
     (json_loads lim cards_text = Inr cards \<or>
      json_loads lim cards_text = Inl JSONDecodeError \<and>
        extract_json_pattern lim cards_text = Inr (Some cards) \<or>
      json_loads lim cards_text = Inl JSONDecodeError \<and>
        extract_json_pattern lim cards_text = Inr None \<and>
        (\<exists>ps. cards = VList ps \<and> ps \<noteq> [] \<and> list_all is_pair ps))"
proof (cases "json_loads lim cards_text")
  case (Inr cards)
  then show ?thesis by (simp add: parse_response_def)
next
  case (Inl x)
  with assms(1) have x: "json_loads lim cards_text = Inl JSONDecodeError"
    by (simp add: decode_error_only_def)
  with assms(2) have "\<And>js. stage2_text cards_text = Some js \<Longrightarrow> decode_error_only lim js"
    by blast
  then obtain r where r: "extract_json_pattern lim cards_text = Inr r"
    using extract_json_pattern_returns by blast
  show ?thesis
  proof (cases r)
    case None
    with x r manual_extraction_pairs [of cards_text slide_text] show ?thesis
      by (auto simp: parse_response_def)
  next
    case (Some cards)
    with x r show ?thesis by (simp add: parse_response_def)
  qed
qed

text \<open>
  In the witness the response has a sentence before the array: the first stage fails, the
  second finds the array, repairs it and parses it.
\<close>

theorem parse_response_returns_witness:
  "json_loads default_limits (''Sure: [{'' @ quoted ''question'' @ '':'' @ quoted ''Q'' @ '', '' @
      quoted ''answer'' @ '': '' @ quoted ''A'' @ ''}]'') = Inl JSONDecodeError \<and>
   stage2_text (''Sure: [{'' @ quoted ''question'' @ '':'' @ quoted ''Q'' @ '', '' @
      quoted ''answer'' @ '': '' @ quoted ''A'' @ ''}]'') =
     Some (''[{'' @ quoted ''question'' @ '': '' @ quoted ''Q'' @ '', '' @
      quoted ''answer'' @ '': '' @ quoted ''A'' @ ''}]'') \<and>
   decode_error_only default_limits (''[{'' @ quoted ''question'' @ '': '' @ quoted ''Q'' @ '', '' @
      quoted ''answer'' @ '': '' @ quoted ''A'' @ ''}]'') \<and>
   (\<exists>cards. parse_response default_limits (''Sure: [{'' @ quoted ''question'' @ '':'' @
        quoted ''Q'' @ '', '' @ quoted ''answer'' @ '': '' @ quoted ''A'' @ ''}]'') ''Title: T'' =
      Inr cards) \<and>
   parse_response default_limits (''Sure: [{'' @ quoted ''question'' @ '':'' @ quoted ''Q'' @ '', '' @
      quoted ''answer'' @ '': '' @ quoted ''A'' @ ''}]'') ''Title: T'' =
     Inr (VList [pair_card ''Q'' ''A''])"
proof -
  let ?t = "''Sure: [{'' @ quoted ''question'' @ '':'' @ quoted ''Q'' @ '', '' @
      quoted ''answer'' @ '': '' @ quoted ''A'' @ ''}]''"
  let ?js = "''[{'' @ quoted ''question'' @ '': '' @ quoted ''Q'' @ '', '' @
      quoted ''answer'' @ '': '' @ quoted ''A'' @ ''}]''"
  have j: "json_loads default_limits ?t = Inl JSONDecodeError"
    by code_simp
  have s2: "stage2_text ?t = Some ?js"
    by (simp add: eval_defs)
  have d2: "decode_error_only default_limits ?js"
    by code_simp
  have d1: "decode_error_only default_limits ?t"
    using j by (simp add: decode_error_only_def)
  have v: "parse_response default_limits ?t ''Title: T'' = Inr (VList [pair_card ''Q'' ''A''])"
    by (simp add: eval_defs pair_card_def ustr_def)
  have "\<exists>cards. parse_response default_limits ?t ''Title: T'' = Inr cards"
    using parse_response_returns [of default_limits ?t "''Title: T''", OF d1] s2 d2 by auto
  with j s2 d2 v show ?thesis by blast
qed



text \<open>
  C5. When the response is not JSON, the second stage gives nothing and the third and the
  fourth stage find no pair, the result is the single pair with the question
  \<open>Review this slide\<close> and the whole slide text as its answer.
\<close>

theorem parse_response_fallback:
  assumes "json_loads lim cards_text = Inl JSONDecodeError"
    and "extract_json_pattern lim cards_text = Inr None"
    and "qa_pairs cards_text = []"
    and "lenient_pairs cards_text = []"
  shows "parse_response lim cards_text slide_text =
           Inr (VList [pair_card ''Review this slide'' slide_text])"
  using assms by (simp add: parse_response_def manual_extraction_def)

theorem parse_response_fallback_witness:
  "json_loads default_limits ''hello'' = Inl JSONDecodeError \<and> extract_json_pattern default_limits ''hello'' = Inr None \<and>
   qa_pairs ''hello'' = [] \<and> lenient_pairs ''hello'' = [] \<and>
   parse_response default_limits ''hello'' (''Title: T'' @ [nl, nl] @ ''Content: c'') =
     Inr (VList [pair_card ''Review this slide'' (''Title: T'' @ [nl, nl] @ ''Content: c'')])"
proof -
  have j: "json_loads default_limits ''hello'' = Inl JSONDecodeError"
    by code_simp
  have e: "extract_json_pattern default_limits ''hello'' = Inr None"
    by (simp add: eval_defs)
  have q: "qa_pairs ''hello'' = []"
    by (simp add: eval_defs)
  have l: "lenient_pairs ''hello'' = []"
    by (simp add: eval_defs)
  from parse_response_fallback [OF j e q l, where slide_text = "''Title: T'' @ [nl, nl] @ ''Content: c''"]
    j e q l
  show ?thesis by simp
qed

section \<open>The claims about the generator\<close>

text \<open>
  C6. A slide whose cleaned title has at most 3 characters and whose cleaned content has at
  most 10 leaves the state as it is: no card and no call of the client. A slide whose
  cleaned title is longer than 3 characters or whose cleaned content is longer than 10
  passes the gate: the client is called at least once with its text.
\<close>

theorem meaningful_content_gate:
  "(length (title (clean_slide_content slide)) \<le> 3 \<and>
    length (content (clean_slide_content slide)) \<le> 10 \<longrightarrow>
      process_slide lim client slide st = st) \<and>
   (length (title (clean_slide_content slide)) > 3 \<or>
    length (content (clean_slide_content slide)) > 10 \<longrightarrow>
      (\<exists>k new. 0 < k \<and> process_slide lim client slide st =
         \<lparr>all_cards = all_cards st @ new,
          requests = requests st @ replicate k (full_text (clean_slide_content slide))\<rparr>))"
proof (intro conjI impI)
  assume "length (title (clean_slide_content slide)) \<le> 3 \<and>
    length (content (clean_slide_content slide)) \<le> 10"
  then show "process_slide lim client slide st = st"
    by (simp add: process_slide_def has_meaningful_content_def)
next
  assume "length (title (clean_slide_content slide)) > 3 \<or>
    length (content (clean_slide_content slide)) > 10"
  then have "has_meaningful_content (clean_slide_content slide)"
    by (simp add: has_meaningful_content_def)
  with process_slide_result [of lim client slide st]
  show "\<exists>k new. 0 < k \<and> process_slide lim client slide st =
         \<lparr>all_cards = all_cards st @ new,
          requests = requests st @ replicate k (full_text (clean_slide_content slide))\<rparr>"
    by blast
qed

theorem meaningful_content_gate_witness:
  "length (title (clean_slide_content \<lparr>title = ''ab'', content = ''0123456789'', slide_num = 2\<rparr>)) \<le> 3 \<and>
   length (content (clean_slide_content \<lparr>title = ''ab'', content = ''0123456789'', slide_num = 2\<rparr>)) \<le> 10 \<and>
   process_slide default_limits (\<lambda>n t. Inr ''[]'') \<lparr>title = ''ab'', content = ''0123456789'', slide_num = 2\<rparr>
       \<lparr>all_cards = [], requests = []\<rparr> = \<lparr>all_cards = [], requests = []\<rparr> \<and>
   length (title (clean_slide_content \<lparr>title = ''Plan'', content = [], slide_num = 1\<rparr>)) > 3 \<and>
   (\<exists>k new. 0 < k \<and>
      process_slide default_limits (\<lambda>n t. Inr ''[]'') \<lparr>title = ''Plan'', content = [], slide_num = 1\<rparr>
          \<lparr>all_cards = [], requests = []\<rparr> =
        \<lparr>all_cards = new, requests = replicate k (''Title: Plan'' @ [nl, nl] @ ''Content: '')\<rparr>)"
proof -
  have a: "clean_slide_content \<lparr>title = ''ab'', content = ''0123456789'', slide_num = 2\<rparr> =
      \<lparr>title = ''ab'', content = ''0123456789'', slide_num = 2\<rparr>"
    by code_simp
  have b: "clean_slide_content \<lparr>title = ''Plan'', content = [], slide_num = 1\<rparr> =
      \<lparr>title = ''Plan'', content = [], slide_num = 1\<rparr>"
    by code_simp
  have f: "full_text \<lparr>title = ''Plan'', content = [], slide_num = 1\<rparr> =
      ''Title: Plan'' @ [nl, nl] @ ''Content: ''"
    by code_simp
  note t1 = meaningful_content_gate
    [of "\<lparr>title = ''ab'', content = ''0123456789'', slide_num = 2\<rparr>" default_limits
        "\<lambda>n t. Inr ''[]''"
        "\<lparr>all_cards = [], requests = []\<rparr>"]
  note t2 = meaningful_content_gate
    [of "\<lparr>title = ''Plan'', content = [], slide_num = 1\<rparr>" default_limits
        "\<lambda>n t. Inr ''[]''"
        "\<lparr>all_cards = [], requests = []\<rparr>"]
  show ?thesis
    using t1 t2 by (simp add: a b f)
qed



text \<open>
  C3, as stated, fails: a slide with an empty title and a content of more than 10
  characters passes the gate, and when the three attempts fail the code appends no card
  for it, because the fallback card is built only under \<open>if cleaned_slide['title']\<close>.
\<close>

theorem fallback_empty_title_counterexample:
  "has_meaningful_content
     (clean_slide_content \<lparr>title = [], content = ''0123456789ab'', slide_num = 3\<rparr>) \<and>
   process_slide default_limits (\<lambda>n t. Inl (OtherError ''down''))
       \<lparr>title = [], content = ''0123456789ab'', slide_num = 3\<rparr>
       \<lparr>all_cards = [], requests = []\<rparr> =
     \<lparr>all_cards = [],
      requests = [''Title: '' @ [nl, nl] @ ''Content: 0123456789ab'',
                  ''Title: '' @ [nl, nl] @ ''Content: 0123456789ab'',
                  ''Title: '' @ [nl, nl] @ ''Content: 0123456789ab'']\<rparr>"
  by code_simp

text \<open>
  C3, amended. For a slide that passes the gate, if the three attempts all fail (the
  client raises, or the stamping of what it returned raises), then three calls have been
  made and, when the cleaned title is not empty, exactly one card is appended: its
  question is \<open>Explain the concept of: {title}\<close>, its answer the content if that is not
  empty and \<open>Review the slide content.\<close> otherwise, its label \<open>Slide N\<close> and its context
  \<open>Auto-generated (DeepSeek API failed)\<close>; when the cleaned title is empty no card is
  appended. The loop goes on with the next slide.
\<close>

theorem fallback_after_three_failures:
  assumes "has_meaningful_content (clean_slide_content slide)"
    and "isl (fst (attempt lim client (clean_slide_content slide) (requests st)))"
    and "isl (fst (attempt lim client (clean_slide_content slide)
           (requests st @ [full_text (clean_slide_content slide)])))"
    and "isl (fst (attempt lim client (clean_slide_content slide)
           (requests st @ [full_text (clean_slide_content slide),
                           full_text (clean_slide_content slide)])))"
  shows "process_slide lim client slide st =
           \<lparr>all_cards = all_cards st @
              (if title (clean_slide_content slide) \<noteq> []
               then [fallback_card (clean_slide_content slide)] else []),
            requests = requests st @
              [full_text (clean_slide_content slide), full_text (clean_slide_content slide),
               full_text (clean_slide_content slide)]\<rparr> \<and>
         generate_loop lim client (slide # slides) st =
           generate_loop lim client slides (process_slide lim client slide st) \<and>
         get_item (fallback_card (clean_slide_content slide)) ''question'' =
           Inr (VStr (ustr (''Explain the concept of: '' @ title (clean_slide_content slide)))) \<and>
         get_item (fallback_card (clean_slide_content slide)) ''answer'' =
           Inr (VStr (ustr (if content (clean_slide_content slide) \<noteq> []
                            then content (clean_slide_content slide)
                            else ''Review the slide content.''))) \<and>
         get_item (fallback_card (clean_slide_content slide)) ''slide'' =
           Inr (VStr (ustr (''Slide '' @ str_int (slide_num slide)))) \<and>
         get_item (fallback_card (clean_slide_content slide)) ''context'' =
           Inr (VStr (ustr ''Auto-generated (DeepSeek API failed)''))"
proof -
  let ?cs = "clean_slide_content slide"
  have "process_slide lim client slide st =
      \<lparr>all_cards = all_cards st @ (if title ?cs \<noteq> [] then [fallback_card ?cs] else []),
       requests = requests st @ [full_text ?cs, full_text ?cs, full_text ?cs]\<rparr>"
    using assms(1)
    by (simp add: process_slide_def Let_def retry_loop_three_failures [OF assms(2-4)])
  moreover have "get_item (fallback_card ?cs) ''slide'' =
      Inr (VStr (ustr (''Slide '' @ str_int (slide_num slide))))"
    by (simp add: fallback_card_def ustr_def slide_label_def clean_slide_num)
  ultimately show ?thesis
    by (simp add: fallback_card_def ustr_def)
qed

theorem fallback_after_three_failures_witness:
  "has_meaningful_content \<lparr>title = ''Plan'', content = [], slide_num = 1\<rparr> \<and>
   process_slide default_limits (\<lambda>n t. Inl (OtherError ''down'')) \<lparr>title = ''Plan'', content = [], slide_num = 1\<rparr>
       \<lparr>all_cards = [], requests = []\<rparr> =
     \<lparr>all_cards = [fallback_card \<lparr>title = ''Plan'', content = [], slide_num = 1\<rparr>],
      requests = [''Title: Plan'' @ [nl, nl] @ ''Content: '',
                  ''Title: Plan'' @ [nl, nl] @ ''Content: '',
                  ''Title: Plan'' @ [nl, nl] @ ''Content: '']\<rparr> \<and>
   get_item (fallback_card \<lparr>title = ''Plan'', content = [], slide_num = 1\<rparr>) ''question'' =
     Inr (VStr (ustr ''Explain the concept of: Plan'')) \<and>
   get_item (fallback_card \<lparr>title = ''Plan'', content = [], slide_num = 1\<rparr>) ''answer'' =
     Inr (VStr (ustr ''Review the slide content.'')) \<and>
   get_item (fallback_card \<lparr>title = ''Plan'', content = [], slide_num = 1\<rparr>) ''slide'' =
     Inr (VStr (ustr ''Slide 1''))"
proof -
  let ?s = "\<lparr>title = ''Plan'', content = [], slide_num = 1\<rparr>"
  let ?down = "\<lambda>(n::nat) (t::string). (Inl (OtherError ''down'') :: exn + string)"
  have a: "clean_slide_content ?s = ?s"
    by code_simp
  have f: "full_text ?s = ''Title: Plan'' @ [nl, nl] @ ''Content: ''"
    by code_simp
  have m: "has_meaningful_content ?s"
    by code_simp
  have f0: "isl (fst (attempt default_limits ?down ?s []))"
    by code_simp
  have f1: "isl (fst (attempt default_limits ?down ?s [''Title: Plan'' @ [nl, nl] @ ''Content: '']))"
    by code_simp
  have f2: "isl (fst (attempt default_limits ?down ?s [''Title: Plan'' @ [nl, nl] @ ''Content: '',
      ''Title: Plan'' @ [nl, nl] @ ''Content: '']))"
    by code_simp
  have s: "''Slide '' @ str_int 1 = ''Slide 1''"
    by code_simp
  note t = fallback_after_three_failures [of ?s default_limits ?down "\<lparr>all_cards = [], requests = []\<rparr>" "[]"]
  show ?thesis
    using t m f0 f1 f2 s by (simp add: a f)
qed

section \<open>The claims about the deck and the file\<close>

text \<open>
  C8. For every list of cards (dicts with a question, an answer and a slide label; the
  context is optional and defaults to the empty string) and every deck name,
  \<open>create_anki_deck\<close> returns a deck of that name with one entry per card, in the order
  of the cards: the \<open>i\<close>-th entry has the model of the converter and the question, the
  answer, the slide label and the context of the \<open>i\<close>-th card as its fields.
\<close>

theorem create_anki_deck_one_to_one:
  assumes "list_all is_card cards"
  shows "\<exists>d. create_anki_deck self_model did cards deck_name = Inr d \<and>
           deck_id d = did \<and> name d = deck_name \<and>
           length (deck_notes d) = length cards \<and>
           (\<forall>i < length cards.
              note_model (deck_notes d ! i) = self_model \<and>
              map Inr (note_fields (deck_notes d ! i)) =
                [get_item (cards ! i) ''question'', get_item (cards ! i) ''answer'',
                 get_item (cards ! i) ''slide'', get_default (cards ! i) ''context'' (VStr [])])"
proof -
  from add_notes_cards [OF assms, of self_model "\<lparr>deck_id = did, name = deck_name, deck_notes = []\<rparr>"]
  obtain ns where
    ns: "create_anki_deck self_model did cards deck_name =
           Inr \<lparr>deck_id = did, name = deck_name, deck_notes = ns\<rparr>"
        "list_all2 (\<lambda>c n. make_note self_model c = Inr n) cards ns"
    by (auto simp: create_anki_deck_def)
  have len: "length ns = length cards"
    using ns(2) by (simp add: list_all2_lengthD)
  have "\<forall>i < length cards.
      note_model (ns ! i) = self_model \<and>
      map Inr (note_fields (ns ! i)) =
        [get_item (cards ! i) ''question'', get_item (cards ! i) ''answer'',
         get_item (cards ! i) ''slide'', get_default (cards ! i) ''context'' (VStr [])]"
  proof (intro allI impI)
    fix i assume i: "i < length cards"
    have mk: "make_note self_model (cards ! i) = Inr (ns ! i)"
      using list_all2_nthD [OF ns(2) i] .
    from assms i have "is_card (cards ! i)"
      by (simp add: list_all_length)
    from make_note_card [OF this, of self_model] mk
    show "note_model (ns ! i) = self_model \<and>
      map Inr (note_fields (ns ! i)) =
        [get_item (cards ! i) ''question'', get_item (cards ! i) ''answer'',
         get_item (cards ! i) ''slide'', get_default (cards ! i) ''context'' (VStr [])]"
      by auto
  qed
  with ns(1) len show ?thesis by simp
qed

theorem create_anki_deck_one_to_one_witness:
  "list_all is_card
     [VDict [(ustr ''question'', VStr (ustr ''Q1'')), (ustr ''answer'', VStr (ustr ''A1'')),
             (ustr ''slide'', VStr (ustr ''Slide 1'')), (ustr ''context'', VStr (ustr ''Plan''))],
      VDict [(ustr ''question'', VStr (ustr ''Q2'')), (ustr ''answer'', VStr (ustr ''A2'')),
             (ustr ''slide'', VStr (ustr ''Slide 2''))]] \<and>
   create_anki_deck (make_model 7) 5
     [VDict [(ustr ''question'', VStr (ustr ''Q1'')), (ustr ''answer'', VStr (ustr ''A1'')),
             (ustr ''slide'', VStr (ustr ''Slide 1'')), (ustr ''context'', VStr (ustr ''Plan''))],
      VDict [(ustr ''question'', VStr (ustr ''Q2'')), (ustr ''answer'', VStr (ustr ''A2'')),
             (ustr ''slide'', VStr (ustr ''Slide 2''))]] ''Deck'' =
     Inr \<lparr>deck_id = 5, name = ''Deck'',
          deck_notes =
            [\<lparr>note_model = make_model 7,
              note_fields = [VStr (ustr ''Q1''), VStr (ustr ''A1''), VStr (ustr ''Slide 1''),
                             VStr (ustr ''Plan'')]\<rparr>,
             \<lparr>note_model = make_model 7,
              note_fields = [VStr (ustr ''Q2''), VStr (ustr ''A2''), VStr (ustr ''Slide 2''),
                             VStr []]\<rparr>]\<rparr> \<and>
   (\<exists>d. create_anki_deck (make_model 7) 5
     [VDict [(ustr ''question'', VStr (ustr ''Q1'')), (ustr ''answer'', VStr (ustr ''A1'')),
             (ustr ''slide'', VStr (ustr ''Slide 1'')), (ustr ''context'', VStr (ustr ''Plan''))],
      VDict [(ustr ''question'', VStr (ustr ''Q2'')), (ustr ''answer'', VStr (ustr ''A2'')),
             (ustr ''slide'', VStr (ustr ''Slide 2''))]] ''Deck'' = Inr d \<and>
      length (deck_notes d) = 2)"
proof -
  let ?cards = "[VDict [(ustr ''question'', VStr (ustr ''Q1'')), (ustr ''answer'', VStr (ustr ''A1'')),
             (ustr ''slide'', VStr (ustr ''Slide 1'')), (ustr ''context'', VStr (ustr ''Plan''))],
      VDict [(ustr ''question'', VStr (ustr ''Q2'')), (ustr ''answer'', VStr (ustr ''A2'')),
             (ustr ''slide'', VStr (ustr ''Slide 2''))]]"
  have h: "list_all is_card ?cards"
    by code_simp
  have v: "create_anki_deck (make_model 7) 5 ?cards ''Deck'' =
     Inr \<lparr>deck_id = 5, name = ''Deck'',
          deck_notes =
            [\<lparr>note_model = make_model 7,
              note_fields = [VStr (ustr ''Q1''), VStr (ustr ''A1''), VStr (ustr ''Slide 1''),
                             VStr (ustr ''Plan'')]\<rparr>,
             \<lparr>note_model = make_model 7,
              note_fields = [VStr (ustr ''Q2''), VStr (ustr ''A2''), VStr (ustr ''Slide 2''),
                             VStr []]\<rparr>]\<rparr>"
    by code_simp
  from create_anki_deck_one_to_one [OF h, of "make_model 7" 5 "''Deck''"]
  have "\<exists>d. create_anki_deck (make_model 7) 5 ?cards ''Deck'' = Inr d \<and>
      length (deck_notes d) = 2"
    by auto
  with h v show ?thesis by blast
qed

text \<open>
  C9. For every file path whose extension, in lower case, is not \<open>.pdf\<close>,
  \<open>process_file\<close> raises \<open>ValueError\<close> at once: nothing is extracted and the completion
  client is not called.
\<close>

theorem process_file_unsupported:
  "py_lower (snd (splitext file_path)) \<noteq> ''.pdf'' \<Longrightarrow>
     process_file w self_model file_path deck_name =
       (Inl (ValueError (''Unsupported file format: '' @ py_lower (snd (splitext file_path)))), [])"
  by (simp add: process_file_def)

theorem process_file_unsupported_witness:
  "py_lower (snd (splitext ''/home/u/slides.PPTX'')) = ''.pptx'' \<and>
   process_file
     \<lparr>pymupdf_pages = (\<lambda>p. Inr [''Plan'']), pypdf2_pages = (\<lambda>p. Inr [''Plan'']),
      chat_completion = (\<lambda>n t. Inr ''[]''), write_to_file = (\<lambda>d p. None),
      home = ''/home/u'', random_id = 5, interpreter = default_limits\<rparr>
     (make_model 7) ''/home/u/slides.PPTX'' ''Deck'' =
     (Inl (ValueError ''Unsupported file format: .pptx''), [])"
proof -
  have e: "py_lower (snd (splitext ''/home/u/slides.PPTX'')) = ''.pptx''"
    by code_simp
  then have "py_lower (snd (splitext ''/home/u/slides.PPTX'')) \<noteq> ''.pdf''"
    by simp
  from process_file_unsupported [OF this] e
  show ?thesis by simp
qed


end
